theory Spec2Isabelle
  imports Complex_Main "HOL-Library.Sublist" "HOL-Library.Log_Nat"
begin

section \<open>JavaScript strings\<close>

text \<open>
  A JavaScript string is a sequence of UTF-16 code units. The model takes the strings
  whose code units are below 256 (Latin-1), one \<^typ>\<open>char\<close> per code unit, so that
  \<open>length\<close>, \<open>substring\<close> and \<open>split\<close> count what the source counts.
\<close>

definition toLowerCase_char :: "char \<Rightarrow> char" where
  \<comment> \<open>\<open>String.prototype.toLowerCase\<close> on one Latin-1 code unit: A-Z, and U+00C0 to
      U+00DE without the multiplication sign U+00D7, move up by 32.\<close>
  "toLowerCase_char c =
     (let n = (of_char c :: nat)
      in if (65 \<le> n \<and> n \<le> 90) \<or> (192 \<le> n \<and> n \<le> 222 \<and> n \<noteq> 215)
         then char_of (n + 32) else c)"

definition toLowerCase :: "string \<Rightarrow> string" where
  "toLowerCase s = map toLowerCase_char s"

definition is_word_char :: "char \<Rightarrow> bool" where
  \<comment> \<open>the class \<open>\w\<close> of a regular expression without flags: \<open>[A-Za-z0-9_]\<close>\<close>
  "is_word_char c =
     (let n = (of_char c :: nat)
      in (65 \<le> n \<and> n \<le> 90) \<or> (97 \<le> n \<and> n \<le> 122) \<or> (48 \<le> n \<and> n \<le> 57) \<or> n = 95)"

definition is_slug_char :: "char \<Rightarrow> bool" where
  \<comment> \<open>the class \<open>[\w-]\<close>\<close>
  "is_slug_char c = (is_word_char c \<or> c = CHR ''-'')"

definition test_slug :: "string \<Rightarrow> bool" where
  \<comment> \<open>\<open>/^[\w-]+$/.test(slug)\<close>: the pattern has no \<open>m\<close> flag, so \<open>^\<close> and \<open>$\<close> are the ends
      of the whole string.\<close>
  "test_slug slug = (slug \<noteq> [] \<and> list_all is_slug_char slug)"

definition replace_backslashes :: "string \<Rightarrow> string" where
  \<comment> \<open>\<open>path.replace(/\\/g, "/")\<close>\<close>
  "replace_backslashes s = map (\<lambda>c. if c = CHR 0x5C then CHR ''/'' else c) s"

fun split_on :: "char \<Rightarrow> string \<Rightarrow> string list" where
  \<comment> \<open>\<open>s.split(sep)\<close> for a separator of one code unit; \<open>"".split("/")\<close> is \<open>[""]\<close>\<close>
  "split_on sep [] = [[]]"
| "split_on sep (c # cs) =
     (if c = sep then [] # split_on sep cs
      else (case split_on sep cs of
              [] \<Rightarrow> [[c]]
            | p # ps \<Rightarrow> (c # p) # ps))"

fun join :: "string \<Rightarrow> string list \<Rightarrow> string" where
  \<comment> \<open>\<open>xs.join(sep)\<close> on an array of strings\<close>
  "join sep [] = []"
| "join sep [x] = x"
| "join sep (x # y # ys) = x @ sep @ join sep (y # ys)"

definition substring_0 :: "nat \<Rightarrow> string \<Rightarrow> string" where
  \<comment> \<open>\<open>s.substring(0, n)\<close>: the end index is clamped to the length\<close>
  "substring_0 n s = take (min n (length s)) s"

section \<open>CategoryResolver: \<open>getCategoryFromPath\<close>\<close>

definition getCategoryFromPath :: "string option \<Rightarrow> string" where
  \<comment> \<open>app.js, lines 109 to 118. \<open>None\<close> is an absent path (\<open>undefined\<close>); \<open>!path\<close> holds
      for it and for the empty string.\<close>
  "getCategoryFromPath path =
     (case path of
        None \<Rightarrow> []
      | Some p \<Rightarrow>
          if p = [] then []
          else
            (let parts = split_on (CHR ''/'') (replace_backslashes p)
             in if length parts \<ge> 2
                then (let slug = parts ! (length parts - 2)
                      in if test_slug slug then toLowerCase slug else [])
                else []))"

section \<open>Data model\<close>

text \<open>
  JavaScript numbers are doubles. The model holds a number as the \<^typ>\<open>rat\<close> that is
  its exact value, and rounds where the source's arithmetic rounds: \<open>round_double\<close> is
  rounding to the nearest double, ties to even, and \<open>js_div\<close> and \<open>js_mul\<close> are the
  operators \<open>/\<close> and \<open>*\<close>. Comparing two doubles compares their values. Two operations
  need no rounding and are written with exact arithmetic: a byte count divided by
  \<open>1024 * 1024\<close> is a double exactly, and \<open>i + 1\<close> on a loop index is an integer.
  The test \<open>score > 0.6\<close> is written against \<open>6/10\<close>: no double lies strictly between
  the double nearest to \<open>0.6\<close> and \<open>6/10\<close>, so the two tests agree on every double.
\<close>

definition round_half_even :: "rat \<Rightarrow> int" where
  \<comment> \<open>the nearest integer, the even one of two that are equally near\<close>
  "round_half_even t =
     (let f = \<lfloor>t\<rfloor>; d = t - of_int f
      in if d < 1 / 2 then f
         else if 1 / 2 < d then f + 1
         else if even f then f else f + 1)"

definition ilog2 :: "rat \<Rightarrow> int" where
  \<comment> \<open>for \<open>x > 0\<close>, the integer \<open>k\<close> with \<open>2\<^sup>k \<le> x < 2\<^sup>k\<^sup>+\<^sup>1\<close>: the difference of the bit
      lengths of numerator and denominator, or one less\<close>
  "ilog2 x =
     (case quotient_of x of
        (p, q) \<Rightarrow>
          (let e0 = bitlen p - bitlen q
           in if 2 powi e0 \<le> x then e0 else e0 - 1))"

definition round_double :: "rat \<Rightarrow> rat" where
  \<comment> \<open>the double nearest to \<open>x\<close>: a significand of 53 bits, ties to even. The exponent is
      not bounded, which is the double format between \<open>2\<^sup>-\<^sup>1\<^sup>0\<^sup>2\<^sup>2\<close> and \<open>2\<^sup>1\<^sup>0\<^sup>2\<^sup>4\<close>; the values
      rounded in this file lie between \<open>2\<^sup>-\<^sup>3\<^sup>3\<close> and 128.\<close>
  "round_double x =
     (if x = 0 then 0
      else (let e = ilog2 \<bar>x\<bar> - 52
            in of_int (round_half_even (x / 2 powi e)) * 2 powi e))"

definition js_div :: "rat \<Rightarrow> rat \<Rightarrow> rat" where
  \<comment> \<open>\<open>a / b\<close> on numbers, for \<open>b\<close> other than 0\<close>
  "js_div a b = round_double (a / b)"

definition js_mul :: "rat \<Rightarrow> rat \<Rightarrow> rat" where
  \<comment> \<open>\<open>a * b\<close> on numbers\<close>
  "js_mul a b = round_double (a * b)"

record image_file =
  \<comment> \<open>the fields of a browser \<open>File\<close> that the source reads: \<open>name\<close>, \<open>size\<close>, \<open>type\<close>\<close>
  f_name :: string
  f_size :: nat
  f_type :: string

record metadata =
  \<comment> \<open>the object \<open>extractMetadata\<close> returns; \<open>size_bytes\<close> is the source's \<open>size\<close>\<close>
  name :: string
  path :: "string option"
  size_bytes :: nat
  width :: nat
  height :: nat

record image_record = metadata +
  \<comment> \<open>the same object once \<open>processWithVision\<close> has set its three further fields\<close>
  description :: string
  category_slug :: string
  tags :: string

record label =
  \<comment> \<open>an entry of \<open>labelAnnotations\<close>, the service's \<open>EntityAnnotation\<close>. The source
      tests \<open>l.score\<close> before comparing it, so the score may be absent; it calls
      \<open>l.description.toLowerCase()\<close> with no test, so the description is a string.\<close>
  l_description :: string
  l_score :: "rat option"

record vision_result =
  \<comment> \<open>what \<open>analyzeVision\<close> returns, the spec's \<open>VisionResult\<close>: a list of labels, a
      string and an error string. The source tests each field for truthiness, so each may
      be absent.\<close>
  v_labels :: "label list option"
  v_description :: "string option"
  v_error :: "string option"

datatype error_class = Error | TypeError | SyntaxError | RangeError | URIError | AbortError

fun class_name :: "error_class \<Rightarrow> string" where
  "class_name Error = ''Error''"
| "class_name TypeError = ''TypeError''"
| "class_name SyntaxError = ''SyntaxError''"
| "class_name RangeError = ''RangeError''"
| "class_name URIError = ''URIError''"
| "class_name AbortError = ''AbortError''"

datatype js_exn = JsError (exn_class: error_class) (exn_message: string)
  \<comment> \<open>a thrown error object: every value thrown in app.js or by the browser calls it
      makes is one, with the \<open>name\<close> of its class and a \<open>message\<close>\<close>

definition exn_name :: "js_exn \<Rightarrow> string" where
  "exn_name e = class_name (exn_class e)"

type_synonym 'a settled = "js_exn + 'a"
  \<comment> \<open>a settled promise or a finished evaluation: \<open>Inl\<close> rejected or thrown,
      \<open>Inr\<close> fulfilled or returned\<close>

subsection \<open>The remote service\<close>

record feature =
  feature_type :: string
  maxResults :: nat

record annotate_image_request =
  image_content :: "string option"
  features :: "feature list"

record request_init =
  \<comment> \<open>the second argument of \<open>fetch\<close>; \<open>body\<close> is the value given to
      \<open>JSON.stringify\<close>, the list under \<open>requests\<close>\<close>
  http_method :: string
  headers :: "(string \<times> string) list"
  body :: "annotate_image_request list"

record best_guess_label =
  bg_label :: "string option"

record web_detection =
  bestGuessLabels :: "best_guess_label option list option"

record annotate_image_response =
  labelAnnotations :: "label list option"
  webDetection :: "web_detection option"

record api_error =
  message :: "string option"

record resp_json =
  \<comment> \<open>the parsed body. A field read by \<open>?.\<close> or tested for truthiness is an option:
      \<open>None\<close> where the field is absent, \<open>null\<close> or another falsy value.\<close>
  r_error :: "api_error option"
  r_responses :: "annotate_image_response option list option"

record response =
  \<comment> \<open>\<open>json\<close> is how \<open>response.json()\<close> settles: rejected when the body is not JSON,
      \<open>Inr None\<close> when the body is the JSON text \<open>null\<close>\<close>
  ok :: bool
  statusText :: string
  json :: "resp_json option settled"

subsection \<open>The environment and the processor\<close>

record env =
  \<comment> \<open>the browser and the network, fixed for a run (a deterministic stub):
      \<open>readAsDataURL f\<close> is \<open>None\<close> when the \<open>FileReader\<close> fires \<open>onerror\<close> and
      \<open>Some url\<close> when it fires \<open>onload\<close> with \<open>reader.result = url\<close>\<close>
  readAsDataURL :: "image_file \<Rightarrow> string option"
  fetch :: "string \<Rightarrow> request_init \<Rightarrow> response settled"
  encodeURIComponent :: "string \<Rightarrow> string"
  extractMetadata :: "image_file \<Rightarrow> metadata"
  \<comment> \<open>Modelled from the spec: \<open>extractMetadata\<close> is not in app.js (line 206 leaves it
      out). The spec, 4.2: \<open>extract(file) -> {name, path, size, width, height}\<close>, local,
      never throws.\<close>

datatype alert_message =
    OversizedWarning rat
      \<comment> \<open>line 97, the template with \<open>${this.MAX_FILE_SIZE_MB}\<close>\<close>
  | ProcessingError string string
      \<comment> \<open>line 131, \<open>Error procesando ${file.name}: ${vision.error}\<close>\<close>
  | ReadError string
      \<comment> \<open>line 199, \<open>Error leyendo el archivo: ${file.name}\<close>\<close>

datatype effect =
    Alert alert_message
  | ConsoleError string js_exn
  | ShowProgress
  | UpdateProgress rat string
  | UpdateItemStatus nat string
  | AppendRow image_record
  | ShowResults
  | ShowPreview
  | ClearResultsTable
  | Delay nat
  | HideProgressAfter nat

record image_processor =
  \<comment> \<open>the fields of the class \<open>ImageProcessor\<close>, and \<open>trace\<close>: what the processor has
      done to its collaborators (dialogs, the page, timers), oldest first\<close>
  images :: "image_file list"
  processedData :: "image_record list"
  MAX_FILE_SIZE_MB :: rat
  trace :: "effect list"

definition emit :: "effect \<Rightarrow> image_processor \<Rightarrow> image_processor" where
  "emit e s = s\<lparr>trace := trace s @ [e]\<rparr>"

text \<open>
  The methods \<open>updateProgress\<close>, \<open>updateItemStatus\<close>, \<open>appendRow\<close>, \<open>showProgress\<close>,
  \<open>showResults\<close>, \<open>showPreview\<close> and \<open>hideProgress\<close> are not in app.js (line 206
  leaves them out). The spec, section 6, has them as notifications to the presentation
  collaborator; the model records each call in the trace.
\<close>

definition updateProgress :: "rat \<Rightarrow> string \<Rightarrow> image_processor \<Rightarrow> image_processor" where
  \<comment> \<open>Modelled from the spec: \<open>updateProgress\<close> is missing from app.js; section 6 has it as
      the progress update \<open>(percent, label)\<close> sent to the presentation collaborator.\<close>
  "updateProgress percent text s = emit (UpdateProgress percent text) s"

definition updateItemStatus :: "nat \<Rightarrow> string \<Rightarrow> image_processor \<Rightarrow> image_processor" where
  \<comment> \<open>Modelled from the spec: \<open>updateItemStatus\<close> is missing from app.js; section 6 has it
      as the per-item status change sent to the presentation collaborator.\<close>
  "updateItemStatus i status s = emit (UpdateItemStatus i status) s"

definition appendRow :: "image_record \<Rightarrow> image_processor \<Rightarrow> image_processor" where
  \<comment> \<open>Modelled from the spec: \<open>appendRow\<close> is missing from app.js; section 6 has it as the
      new-row notification sent to the presentation collaborator.\<close>
  "appendRow r s = emit (AppendRow r) s"

definition showProgress :: "image_processor \<Rightarrow> image_processor" where
  \<comment> \<open>Modelled from the spec: \<open>showProgress\<close> is missing from app.js; a call on the
      presentation collaborator.\<close>
  "showProgress s = emit ShowProgress s"

definition showResults :: "image_processor \<Rightarrow> image_processor" where
  \<comment> \<open>Modelled from the spec: \<open>showResults\<close> is missing from app.js; a call on the
      presentation collaborator.\<close>
  "showResults s = emit ShowResults s"

definition showPreview :: "image_processor \<Rightarrow> image_processor" where
  \<comment> \<open>Modelled from the spec: \<open>showPreview\<close> is missing from app.js; a call on the
      presentation collaborator.\<close>
  "showPreview s = emit ShowPreview s"

definition alert :: "alert_message \<Rightarrow> image_processor \<Rightarrow> image_processor" where
  \<comment> \<open>the browser's \<open>alert\<close>\<close>
  "alert msg s = emit (Alert msg) s"

section \<open>FileGate: \<open>prepareFiles\<close>\<close>

definition prepareFiles :: "image_file list \<Rightarrow> image_processor \<Rightarrow> image_processor" where
  \<comment> \<open>app.js, lines 92 to 106\<close>
  "prepareFiles files s =
     (let oversized = filter (\<lambda>f. of_nat (f_size f) / (1024 * 1024) > MAX_FILE_SIZE_MB s) files;
          s1 = (if oversized \<noteq> []
                then alert (OversizedWarning (MAX_FILE_SIZE_MB s)) s
                else s);
          files' = filter (\<lambda>f. of_nat (f_size f) / (1024 * 1024) \<le> MAX_FILE_SIZE_MB s) files
      in showPreview
           (emit ClearResultsTable (s1\<lparr>images := files', processedData := []\<rparr>)))"

section \<open>VisionClient: \<open>imageToBase64\<close> and \<open>analyzeVision\<close>\<close>

definition at_index :: "'a list \<Rightarrow> nat \<Rightarrow> 'a option" where
  \<comment> \<open>\<open>xs[i]\<close>: \<open>undefined\<close> (here \<open>None\<close>) out of range\<close>
  "at_index xs i = (if i < length xs then Some (xs ! i) else None)"

definition base64_part :: "string \<Rightarrow> string option" where
  \<comment> \<open>line 195, \<open>reader.result.split(",")[1]\<close>\<close>
  "base64_part result = at_index (split_on (CHR '','') result) 1"

definition imageToBase64 ::
  "env \<Rightarrow> image_file \<Rightarrow> image_processor \<Rightarrow> string option settled \<times> image_processor" where
  \<comment> \<open>app.js, lines 191 to 204: the promise resolves with \<open>reader.result.split(",")[1]\<close>
      or, after an alert, rejects with \<open>new Error("Lectura fallida")\<close>\<close>
  "imageToBase64 env file s =
     (case readAsDataURL env file of
        Some result \<Rightarrow> (Inr (base64_part result), s)
      | None \<Rightarrow>
          (Inl (JsError Error ''Lectura fallida''), alert (ReadError (f_name file)) s))"

definition exn_to_string :: "js_exn \<Rightarrow> string" where
  \<comment> \<open>\<open>String(e)\<close> for an error object, \<open>Error.prototype.toString\<close>\<close>
  "exn_to_string e =
     (if exn_name e = [] then exn_message e
      else if exn_message e = [] then exn_name e
      else exn_name e @ '': '' @ exn_message e)"

definition null_property_error :: js_exn where
  \<comment> \<open>what reading \<open>respJson.error\<close> throws when \<open>respJson\<close> is \<open>null\<close>; the text of
      the message is the engine's (here V8's)\<close>
  "null_property_error =
     JsError TypeError (''Cannot read properties of null (reading '' @ [CHR 0x27] @ ''error''
                            @ [CHR 0x27] @ '')'')"

definition first_response :: "resp_json \<Rightarrow> annotate_image_response option" where
  \<comment> \<open>\<open>respJson.responses?.[0]\<close>, with \<open>None\<close> for \<open>undefined\<close> and \<open>null\<close>\<close>
  "first_response respJson =
     (case r_responses respJson of
        None \<Rightarrow> None
      | Some rs \<Rightarrow> (case at_index rs 0 of None \<Rightarrow> None | Some r \<Rightarrow> r))"

definition best_guess :: "resp_json \<Rightarrow> string option" where
  \<comment> \<open>\<open>respJson.responses?.[0]?.webDetection?.bestGuessLabels?.[0]?.label\<close>\<close>
  "best_guess respJson =
     (case first_response respJson of
        None \<Rightarrow> None
      | Some r \<Rightarrow>
          (case webDetection r of
             None \<Rightarrow> None
           | Some w \<Rightarrow>
               (case bestGuessLabels w of
                  None \<Rightarrow> None
                | Some bs \<Rightarrow>
                    (case at_index bs 0 of
                       None \<Rightarrow> None
                     | Some None \<Rightarrow> None
                     | Some (Some b) \<Rightarrow> bg_label b))))"

definition or_string :: "string option \<Rightarrow> string \<Rightarrow> string" where
  \<comment> \<open>\<open>a || b\<close> where \<open>a\<close> is a string or absent: the empty string is falsy\<close>
  "or_string a b = (case a of None \<Rightarrow> b | Some x \<Rightarrow> if x = [] then b else x)"

definition vision_request :: "string option \<Rightarrow> request_init" where
  \<comment> \<open>lines 158 to 175\<close>
  "vision_request base64 =
     \<lparr>http_method = ''POST'',
      headers = [(''Content-Type'', ''application/json'')],
      body = [\<lparr>image_content = base64,
               features = [\<lparr>feature_type = ''LABEL_DETECTION'', maxResults = 20\<rparr>,
                           \<lparr>feature_type = ''WEB_DETECTION'', maxResults = 1\<rparr>]\<rparr>]\<rparr>"

definition classify_response :: "response \<Rightarrow> vision_result settled" where
  \<comment> \<open>lines 177 to 184: \<open>await response.json()\<close> and what follows it in the \<open>try\<close>
      block; \<open>Inl\<close> is what it throws\<close>
  "classify_response response =
     (case json response of
        Inl e \<Rightarrow> Inl e
      | Inr None \<Rightarrow> Inl null_property_error
      | Inr (Some respJson) \<Rightarrow>
          if \<not> ok response \<or> r_error respJson \<noteq> None
          then
            (let errorMsg =
                   or_string (case r_error respJson of None \<Rightarrow> None | Some e \<Rightarrow> message e)
                     (or_string (Some (statusText response)) ''Desconocido'')
             in Inr \<lparr>v_labels = Some [], v_description = Some [],
                     v_error = Some (''API: '' @ errorMsg)\<rparr>)
          else
            (let labels =
                   (case first_response respJson of
                      None \<Rightarrow> []
                    | Some r \<Rightarrow> (case labelAnnotations r of None \<Rightarrow> [] | Some ls \<Rightarrow> ls));
                 description = or_string (best_guess respJson) []
             in Inr \<lparr>v_labels = Some labels, v_description = Some description,
                     v_error = None\<rparr>))"

definition vision_url :: "env \<Rightarrow> string \<Rightarrow> string" where
  \<comment> \<open>line 170, the template with \<open>${encodeURIComponent(apiKey)}\<close>\<close>
  "vision_url env apiKey =
     ''https://vision.googleapis.com/v1/images:annotate?key='' @ encodeURIComponent env apiKey"

definition analyzeVision_try ::
  "env \<Rightarrow> image_file \<Rightarrow> string \<Rightarrow> image_processor \<Rightarrow> vision_result settled \<times> image_processor" where
  \<comment> \<open>the \<open>try\<close> block, lines 157 to 184; \<open>Inl\<close> is what it throws\<close>
  "analyzeVision_try env file apiKey s =
     (case imageToBase64 env file s of
        (Inl e, s1) \<Rightarrow> (Inl e, s1)
      | (Inr base64, s1) \<Rightarrow>
          (case fetch env (vision_url env apiKey) (vision_request base64) of
             Inl e \<Rightarrow> (Inl e, s1)
           | Inr response \<Rightarrow> (classify_response response, s1)))"

definition analyzeVision ::
  "env \<Rightarrow> image_file \<Rightarrow> string \<Rightarrow> image_processor \<Rightarrow> vision_result settled \<times> image_processor" where
  \<comment> \<open>app.js, lines 155 to 189: the \<open>try\<close> block and its \<open>catch\<close>\<close>
  "analyzeVision env file apiKey s =
     (case analyzeVision_try env file apiKey s of
        (Inr v, s1) \<Rightarrow> (Inr v, s1)
      | (Inl e, s1) \<Rightarrow>
          (Inr \<lparr>v_labels = Some [], v_description = Some [],
                v_error = Some (or_string (Some (exn_message e)) (exn_to_string e))\<rparr>,
           emit (ConsoleError ''Error al llamar a Vision API:'' e) s1))"

section \<open>RecordBuilder and BatchOrchestrator: \<open>processWithVision\<close>\<close>

definition score_passes :: "label \<Rightarrow> bool" where
  \<comment> \<open>line 140, \<open>l.score && l.score > 0.6\<close>: an absent score and 0 are falsy\<close>
  "score_passes l = (case l_score l of None \<Rightarrow> False | Some r \<Rightarrow> r \<noteq> 0 \<and> r > 6 / 10)"

definition double_0_6 :: rat where
  \<comment> \<open>the value of the literal \<open>0.6\<close>: the double nearest to \<open>6/10\<close>, below it by less than
      \<open>2\<^sup>-\<^sup>5\<^sup>3\<close>\<close>
  "double_0_6 = 5404319552844595 / 9007199254740992"

definition build_record :: "metadata \<Rightarrow> vision_result \<Rightarrow> image_record" where
  \<comment> \<open>lines 136 to 143, on the object \<open>meta\<close>\<close>
  "build_record meta vision =
     (let labels = v_labels vision;
          description = v_description vision;
          meta_description =
            (case description of
               None \<Rightarrow> []
             | Some d \<Rightarrow> if d \<noteq> [] then substring_0 100 d else []);
          tags =
            (case labels of
               None \<Rightarrow> []
             | Some ls \<Rightarrow>
                 if length ls \<noteq> 0
                 then map (\<lambda>l. toLowerCase (l_description l)) (filter score_passes ls)
                 else []);
          meta_category_slug = getCategoryFromPath (path meta)
      in \<lparr>name = name meta, path = path meta, size_bytes = size_bytes meta,
          width = width meta, height = height meta,
          description = meta_description,
          category_slug = meta_category_slug,
          tags = (if length tags \<noteq> 0 then [CHR 0x22] @ join '', '' tags @ [CHR 0x22] else [])\<rparr>)"

definition complete_item :: "nat \<Rightarrow> metadata \<Rightarrow> vision_result \<Rightarrow> image_processor \<Rightarrow> image_processor" where
  \<comment> \<open>lines 136 to 147: the rest of the loop body once \<open>vision.error\<close> is falsy\<close>
  "complete_item i meta vision s =
     (let meta' = build_record meta vision;
          s1 = s\<lparr>processedData := processedData s @ [meta']\<rparr>;
          s2 = appendRow meta' s1;
          s3 = updateItemStatus i ''completed'' s2
      in emit (Delay 200) s3)"

definition fail_item :: "nat \<Rightarrow> image_file \<Rightarrow> string \<Rightarrow> image_processor \<Rightarrow> image_processor" where
  \<comment> \<open>lines 131 to 133: the branch of a truthy \<open>vision.error\<close>, up to \<open>continue\<close>\<close>
  "fail_item i file err s =
     updateItemStatus i ''error'' (alert (ProcessingError (f_name file) err) s)"

definition process_item ::
  "env \<Rightarrow> string \<Rightarrow> nat \<Rightarrow> image_file \<Rightarrow> image_processor \<Rightarrow> js_exn option \<times> image_processor" where
  \<comment> \<open>the loop body, lines 123 to 147, for \<open>file = this.images[i]\<close>; \<open>Some e\<close> is an
      exception that leaves the loop\<close>
  "process_item env apiKey i file s =
     (let s1 = updateProgress (js_mul (js_div (of_nat (i + 1)) (of_nat (length (images s)))) 100)
                 (''Procesando '' @ f_name file) s;
          meta = extractMetadata env file
      in case analyzeVision env file apiKey s1 of
           (Inl e, s2) \<Rightarrow> (Some e, s2)
         | (Inr vision, s2) \<Rightarrow>
             (case v_error vision of
                None \<Rightarrow> (None, complete_item i meta vision s2)
              | Some err \<Rightarrow>
                  if err \<noteq> [] then (None, fail_item i file err s2)
                  else (None, complete_item i meta vision s2)))"

function process_loop ::
  "env \<Rightarrow> string \<Rightarrow> nat \<Rightarrow> image_processor \<Rightarrow> js_exn option \<times> image_processor" where
  \<comment> \<open>the \<open>for\<close> loop of line 122, from index \<open>i\<close>\<close>
  "process_loop env apiKey i s =
     (if i < length (images s)
      then (case process_item env apiKey i (images s ! i) s of
              (Some e, s') \<Rightarrow> (Some e, s')
            | (None, s') \<Rightarrow> process_loop env apiKey (Suc i) s')
      else (None, s))"
  by pat_completeness auto
termination
  apply (relation "measure (\<lambda>(env, apiKey, i, s). length (images s) - i)")
   apply simp
  apply (auto simp: process_item_def analyzeVision_def analyzeVision_try_def imageToBase64_def
      complete_item_def fail_item_def updateProgress_def updateItemStatus_def appendRow_def
      alert_def emit_def Let_def
      split: prod.splits sum.splits option.splits if_splits)
  done

declare process_loop.simps [simp del]

definition processWithVision ::
  "env \<Rightarrow> string \<Rightarrow> image_processor \<Rightarrow> js_exn option \<times> image_processor" where
  \<comment> \<open>app.js, lines 120 to 152; \<open>Some e\<close> is a rejection of the promise it returns\<close>
  "processWithVision env apiKey s =
     (case process_loop env apiKey 0 (showProgress s) of
        (Some e, s') \<Rightarrow> (Some e, s')
      | (None, s') \<Rightarrow>
          (None,
           emit (HideProgressAfter 800)
             (showResults (updateProgress 100 ''Procesamiento completado'' s'))))"

definition new_ImageProcessor :: image_processor where
  \<comment> \<open>the constructor, lines 2 to 8, on a page that has every required element\<close>
  "new_ImageProcessor = \<lparr>images = [], processedData = [], MAX_FILE_SIZE_MB = 5, trace = []\<rparr>"

section \<open>Reading a run\<close>

text \<open>
  The vision client changes nothing of the processor but its trace, and what it returns
  does not depend on the processor. \<open>vision_of\<close> and \<open>client_effects\<close> name the result
  and the effects of one call, read off a call on a processor with an empty trace.
\<close>

definition blank_processor :: image_processor where
  "blank_processor = \<lparr>images = [], processedData = [], MAX_FILE_SIZE_MB = 0, trace = []\<rparr>"

definition no_result :: vision_result where
  "no_result = \<lparr>v_labels = None, v_description = None, v_error = None\<rparr>"

definition vision_of :: "env \<Rightarrow> string \<Rightarrow> image_file \<Rightarrow> vision_result" where
  "vision_of env apiKey file =
     (case fst (analyzeVision env file apiKey blank_processor) of
        Inr v \<Rightarrow> v
      | Inl e \<Rightarrow> no_result)"

definition client_effects :: "env \<Rightarrow> string \<Rightarrow> image_file \<Rightarrow> effect list" where
  "client_effects env apiKey file = trace (snd (analyzeVision env file apiKey blank_processor))"

definition has_error :: "vision_result \<Rightarrow> bool" where
  \<comment> \<open>the test \<open>if (vision.error)\<close> of line 130\<close>
  "has_error v = (case v_error v of None \<Rightarrow> False | Some err \<Rightarrow> err \<noteq> [])"

definition error_text :: "vision_result \<Rightarrow> string" where
  "error_text v = (case v_error v of None \<Rightarrow> [] | Some err \<Rightarrow> err)"

definition item_records :: "env \<Rightarrow> string \<Rightarrow> image_file \<Rightarrow> image_record list" where
  "item_records env apiKey file =
     (if has_error (vision_of env apiKey file) then []
      else [build_record (extractMetadata env file) (vision_of env apiKey file)])"

definition progress_percent :: "nat \<Rightarrow> nat \<Rightarrow> rat" where
  \<comment> \<open>line 124, \<open>((i + 1) / this.images.length) * 100\<close> for \<open>n\<close> images\<close>
  "progress_percent i n = js_mul (js_div (of_nat (i + 1)) (of_nat n)) 100"

definition unit_roundoff :: rat where
  \<comment> \<open>the largest relative error of one rounding\<close>
  "unit_roundoff = 1 / 2 ^ 53"

definition item_effects :: "env \<Rightarrow> string \<Rightarrow> nat \<Rightarrow> nat \<Rightarrow> image_file \<Rightarrow> effect list" where
  "item_effects env apiKey n i file =
     UpdateProgress (progress_percent i n) (''Procesando '' @ f_name file)
     # client_effects env apiKey file
     @ (if has_error (vision_of env apiKey file)
        then [Alert (ProcessingError (f_name file) (error_text (vision_of env apiKey file))),
              UpdateItemStatus i ''error'']
        else [AppendRow (build_record (extractMetadata env file) (vision_of env apiKey file)),
              UpdateItemStatus i ''completed'',
              Delay 200])"

fun loop_effects :: "env \<Rightarrow> string \<Rightarrow> nat \<Rightarrow> nat \<Rightarrow> image_file list \<Rightarrow> effect list" where
  "loop_effects env apiKey n i [] = []"
| "loop_effects env apiKey n i (f # fs) =
     item_effects env apiKey n i f @ loop_effects env apiKey n (Suc i) fs"

definition run_effects :: "env \<Rightarrow> string \<Rightarrow> image_processor \<Rightarrow> effect list" where
  \<comment> \<open>what one call of \<open>processWithVision\<close> adds to the trace\<close>
  "run_effects env apiKey s =
     drop (length (trace s)) (trace (snd (processWithVision env apiKey s)))"

fun progress_of :: "effect list \<Rightarrow> rat list" where
  "progress_of [] = []"
| "progress_of (UpdateProgress p t # es) = p # progress_of es"
| "progress_of (e # es) = progress_of es"

fun statuses_of :: "effect list \<Rightarrow> (nat \<times> string) list" where
  "statuses_of [] = []"
| "statuses_of (UpdateItemStatus i st # es) = (i, st) # statuses_of es"
| "statuses_of (e # es) = statuses_of es"

fun alerts_of :: "effect list \<Rightarrow> alert_message list" where
  "alerts_of [] = []"
| "alerts_of (Alert m # es) = m # alerts_of es"
| "alerts_of (e # es) = alerts_of es"

fun processing_errors_of :: "effect list \<Rightarrow> (string \<times> string) list" where
  \<comment> \<open>the alerts of line 131, raised by \<open>processWithVision\<close> itself\<close>
  "processing_errors_of [] = []"
| "processing_errors_of (Alert (ProcessingError n err) # es) = (n, err) # processing_errors_of es"
| "processing_errors_of (e # es) = processing_errors_of es"

fun delays_of :: "effect list \<Rightarrow> nat list" where
  "delays_of [] = []"
| "delays_of (Delay ms # es) = ms # delays_of es"
| "delays_of (e # es) = delays_of es"

text \<open>
  \<open>call_fails\<close> lists the failures of one call: the file cannot be read, the transport
  fails, the body is not JSON or is \<open>null\<close>, the status is not ok, or the body has a
  truthy \<open>error\<close>. \<open>is_error_result\<close> is the shape
  \<open>{labels: [], description: "", error: <a non-empty string>}\<close>.
\<close>

definition call_fails :: "env \<Rightarrow> image_file \<Rightarrow> string \<Rightarrow> bool" where
  "call_fails env file apiKey =
     (case readAsDataURL env file of
        None \<Rightarrow> True
      | Some result \<Rightarrow>
          (case fetch env (vision_url env apiKey)
                  (vision_request (base64_part result)) of
             Inl e \<Rightarrow> True
           | Inr response \<Rightarrow>
               (case json response of
                  Inl e \<Rightarrow> True
                | Inr None \<Rightarrow> True
                | Inr (Some respJson) \<Rightarrow> \<not> ok response \<or> r_error respJson \<noteq> None)))"

definition is_error_result :: "vision_result \<Rightarrow> bool" where
  "is_error_result v =
     (v_labels v = Some [] \<and> v_description v = Some []
      \<and> (case v_error v of None \<Rightarrow> False | Some msg \<Rightarrow> msg \<noteq> []))"

subsection \<open>A stubbed environment\<close>

definition demo_labels :: "label list" where
  "demo_labels = [\<lparr>l_description = ''Cat'', l_score = Some (9 / 10)\<rparr>,
                  \<lparr>l_description = ''Animal'', l_score = Some (5 / 10)\<rparr>]"

definition demo_body :: resp_json where
  "demo_body =
     \<lparr>r_error = None,
      r_responses =
        Some [Some \<lparr>labelAnnotations = Some demo_labels,
                    webDetection =
                      Some \<lparr>bestGuessLabels = Some [Some \<lparr>bg_label = Some ''cat on a sofa''\<rparr>]\<rparr>\<rparr>]\<rparr>"

definition quota_body :: resp_json where
  "quota_body = \<lparr>r_error = Some \<lparr>message = Some ''Quota exceeded''\<rparr>, r_responses = None\<rparr>"

definition quota_response :: response where
  "quota_response =
     \<lparr>ok = False, statusText = ''Too Many Requests'', json = Inr (Some quota_body)\<rparr>"

definition gateway_response :: response where
  \<comment> \<open>a proxy's error page: the status is not ok and the body is not JSON\<close>
  "gateway_response =
     \<lparr>ok = False, statusText = ''Bad Gateway'',
      json = Inl (JsError SyntaxError ''Unexpected token < in JSON at position 0'')\<rparr>"

definition demo_fetch :: "string \<Rightarrow> request_init \<Rightarrow> response settled" where
  \<comment> \<open>the stub answers by the image content it is sent\<close>
  "demo_fetch url init =
     (case body init of
        [] \<Rightarrow> Inl (JsError TypeError ''Failed to fetch'')
      | r # rs \<Rightarrow>
          if image_content r = Some ''offline.png''
          then Inl (JsError TypeError ''Failed to fetch'')
          else if image_content r = Some ''quota.png'' then Inr quota_response
          else if image_content r = Some ''gateway.png'' then Inr gateway_response
          else Inr \<lparr>ok = True, statusText = ''OK'', json = Inr (Some demo_body)\<rparr>)"

definition demo_env :: env where
  "demo_env =
     \<lparr>readAsDataURL = (\<lambda>f. if f_name f = ''unreadable.png'' then None
                             else Some (''data:image/png;base64,'' @ f_name f)),
      fetch = demo_fetch,
      encodeURIComponent = (\<lambda>k. k),
      extractMetadata = (\<lambda>f. \<lparr>name = f_name f, path = Some (''photos/Animals/'' @ f_name f),
                                 size_bytes = f_size f, width = 640, height = 480\<rparr>)\<rparr>"

definition demo_meta :: metadata where
  "demo_meta = \<lparr>name = ''a.png'', path = Some ''photos/Animals/a.png'', size_bytes = 1000,
                 width = 640, height = 480\<rparr>"

definition demo_file :: "string \<Rightarrow> image_file" where
  "demo_file n = \<lparr>f_name = n, f_size = 1000, f_type = ''image/png''\<rparr>"

definition demo_record :: "string \<Rightarrow> image_record" where
  "demo_record n =
     \<lparr>name = n, path = Some (''photos/Animals/'' @ n), size_bytes = 1000, width = 640,
      height = 480, description = ''cat on a sofa'', category_slug = ''animals'',
      tags = [CHR 0x22] @ ''cat'' @ [CHR 0x22]\<rparr>"

definition demo_batch :: image_processor where
  "demo_batch =
     prepareFiles [demo_file ''a.png'', demo_file ''offline.png'', demo_file ''c.png'']
       new_ImageProcessor"

definition demo_batch_unreadable :: image_processor where
  "demo_batch_unreadable =
     prepareFiles [demo_file ''a.png'', demo_file ''unreadable.png'', demo_file ''c.png'']
       new_ImageProcessor"

section \<open>The vision client and the loop, as functions of the input\<close>

lemma analyzeVision_try_frame:
  "analyzeVision_try env file apiKey s =
     (fst (analyzeVision_try env file apiKey blank_processor),
      s\<lparr>trace := trace s @ trace (snd (analyzeVision_try env file apiKey blank_processor))\<rparr>)"
  by (simp add: analyzeVision_try_def imageToBase64_def blank_processor_def alert_def emit_def
       split: sum.splits option.splits)

lemma analyzeVision_fulfilled: "\<exists>v. fst (analyzeVision env file apiKey s) = Inr v"
  by (simp add: analyzeVision_def split: sum.splits prod.splits)

lemma analyzeVision_frame:
  "analyzeVision env file apiKey s =
     (Inr (vision_of env apiKey file), s\<lparr>trace := trace s @ client_effects env apiKey file\<rparr>)"
proof -
  obtain v where v: "fst (analyzeVision env file apiKey blank_processor) = Inr v"
    using analyzeVision_fulfilled by blast
  have "analyzeVision env file apiKey s =
     (fst (analyzeVision env file apiKey blank_processor),
      s\<lparr>trace := trace s @ trace (snd (analyzeVision env file apiKey blank_processor))\<rparr>)"
    apply (subst analyzeVision_def)
    apply (subst analyzeVision_try_frame)
    apply (simp add: analyzeVision_def emit_def split: sum.splits prod.splits)
    done
  then show ?thesis
    by (simp add: vision_of_def client_effects_def v)
qed

lemma process_item_frame:
  "process_item env apiKey i file s =
     (None, s\<lparr>processedData := processedData s @ item_records env apiKey file,
              trace := trace s @ item_effects env apiKey (length (images s)) i file\<rparr>)"
  by (simp add: process_item_def analyzeVision_frame updateProgress_def emit_def Let_def
      complete_item_def fail_item_def appendRow_def updateItemStatus_def alert_def
      item_records_def item_effects_def has_error_def error_text_def progress_percent_def
      split: option.splits)

lemma process_loop_frame:
  "process_loop env apiKey i s =
     (None,
      s\<lparr>processedData :=
          processedData s @ concat (map (item_records env apiKey) (drop i (images s))),
        trace := trace s @ loop_effects env apiKey (length (images s)) i (drop i (images s))\<rparr>)"
proof (induction env apiKey i s rule: process_loop.induct)
  case (1 env apiKey i s)
  show ?case
  proof (cases "i < length (images s)")
    case False
    then show ?thesis
      by (subst process_loop.simps) simp
  next
    case True
    let ?s' = "s\<lparr>processedData := processedData s @ item_records env apiKey (images s ! i),
                 trace := trace s @ item_effects env apiKey (length (images s)) i (images s ! i)\<rparr>"
    have step: "process_item env apiKey i (images s ! i) s = (None, ?s')"
      by (rule process_item_frame)
    have dr: "drop i (images s) = images s ! i # drop (Suc i) (images s)"
      using True by (simp add: Cons_nth_drop_Suc)
    have "process_loop env apiKey i s = process_loop env apiKey (Suc i) ?s'"
      by (subst process_loop.simps) (simp add: True step)
    also have "\<dots> =
        (None,
         ?s'\<lparr>processedData :=
               processedData ?s' @ concat (map (item_records env apiKey) (drop (Suc i) (images ?s'))),
             trace :=
               trace ?s' @ loop_effects env apiKey (length (images ?s')) (Suc i)
                            (drop (Suc i) (images ?s'))\<rparr>)"
      using "1.IH"[OF True step[symmetric] refl] by simp
    finally show ?thesis
      by (simp add: dr)
  qed
qed

lemma processWithVision_frame:
  "processWithVision env apiKey s =
     (None,
      s\<lparr>processedData := processedData s @ concat (map (item_records env apiKey) (images s)),
        trace :=
          trace s @ ShowProgress # loop_effects env apiKey (length (images s)) 0 (images s)
          @ [UpdateProgress 100 ''Procesamiento completado'', ShowResults,
             HideProgressAfter 800]\<rparr>)"
  unfolding processWithVision_def process_loop_frame
  by (simp add: emit_def updateProgress_def showProgress_def showResults_def)

lemma run_effects_eq:
  "run_effects env apiKey s =
     ShowProgress # loop_effects env apiKey (length (images s)) 0 (images s)
     @ [UpdateProgress 100 ''Procesamiento completado'', ShowResults, HideProgressAfter 800]"
  by (simp add: run_effects_def processWithVision_frame)

subsection \<open>The vision client, case by case\<close>

lemma class_name_not_Nil: "class_name c \<noteq> []"
  by (cases c) simp_all

lemma catch_message_not_Nil: "or_string (Some (exn_message e)) (exn_to_string e) \<noteq> []"
  by (simp add: or_string_def exn_to_string_def exn_name_def class_name_not_Nil)

lemma catch_message_eq:
  "or_string (Some (exn_message e)) (exn_to_string e)
     = (if exn_message e \<noteq> [] then exn_message e else class_name (exn_class e))"
  by (simp add: or_string_def exn_to_string_def exn_name_def class_name_not_Nil)

lemma analyzeVision_caught:
  "fst (analyzeVision_try env file apiKey s) = Inl e \<Longrightarrow>
   fst (analyzeVision env file apiKey s)
     = Inr \<lparr>v_labels = Some [], v_description = Some [],
            v_error = Some (or_string (Some (exn_message e)) (exn_to_string e))\<rparr>"
  by (cases "analyzeVision_try env file apiKey s") (auto simp: analyzeVision_def)

lemma analyzeVision_passed:
  "fst (analyzeVision_try env file apiKey s) = Inr v \<Longrightarrow>
   fst (analyzeVision env file apiKey s) = Inr v"
  by (cases "analyzeVision_try env file apiKey s") (auto simp: analyzeVision_def)

lemma analyzeVision_try_read_failed:
  "readAsDataURL env file = None \<Longrightarrow>
   fst (analyzeVision_try env file apiKey s) = Inl (JsError Error ''Lectura fallida'')"
  by (simp add: analyzeVision_try_def imageToBase64_def)

lemma analyzeVision_try_fetch_failed:
  "readAsDataURL env file = Some result \<Longrightarrow>
   fetch env (vision_url env apiKey) (vision_request (base64_part result)) = Inl e \<Longrightarrow>
   fst (analyzeVision_try env file apiKey s) = Inl e"
  by (simp add: analyzeVision_try_def imageToBase64_def)

lemma analyzeVision_try_response:
  "readAsDataURL env file = Some result \<Longrightarrow>
   fetch env (vision_url env apiKey) (vision_request (base64_part result)) = Inr response \<Longrightarrow>
   fst (analyzeVision_try env file apiKey s) = classify_response response"
  by (simp add: analyzeVision_try_def imageToBase64_def)

lemma classify_response_failure:
  "classify_response response = Inr v \<Longrightarrow>
   (case json response of Inr (Some respJson) \<Rightarrow> \<not> ok response \<or> r_error respJson \<noteq> None | _ \<Rightarrow> True) \<Longrightarrow>
   is_error_result v"
  by (auto simp: classify_response_def is_error_result_def Let_def split: sum.splits option.splits if_splits)

lemma classify_response_success:
  "json response = Inr (Some respJson) \<Longrightarrow> ok response \<Longrightarrow> r_error respJson = None \<Longrightarrow>
   \<exists>v. classify_response response = Inr v \<and> v_error v = None"
  by (simp add: classify_response_def Let_def)

lemma classify_response_thrown:
  "classify_response response = Inl e \<Longrightarrow>
   (case json response of Inr (Some respJson) \<Rightarrow> False | _ \<Rightarrow> True)"
  by (auto simp: classify_response_def Let_def split: sum.splits option.splits if_splits)

lemma classify_response_api_error:
  "json response = Inr (Some respJson) \<Longrightarrow> \<not> ok response \<or> r_error respJson \<noteq> None \<Longrightarrow>
   classify_response response
     = Inr \<lparr>v_labels = Some [], v_description = Some [],
            v_error = Some (''API: '' @
              (let fallback = (if statusText response \<noteq> [] then statusText response
                               else ''Desconocido'')
               in case r_error respJson of
                    None \<Rightarrow> fallback
                  | Some err \<Rightarrow>
                      (case message err of
                         None \<Rightarrow> fallback
                       | Some m \<Rightarrow> if m \<noteq> [] then m else fallback)))\<rparr>"
  by (auto simp: classify_response_def or_string_def Let_def split: option.splits)

section \<open>Strings and paths\<close>

lemma split_on_not_Nil: "split_on sep s \<noteq> []"
  by (induction s) (auto split: list.splits)

lemma split_on_no_sep: "sep \<notin> set s \<Longrightarrow> split_on sep s = [s]"
  by (induction s) auto

lemma split_on_append_sep: "split_on sep (a @ sep # b) = split_on sep a @ split_on sep b"
proof (induction a)
  case Nil
  show ?case by simp
next
  case (Cons c a)
  obtain p ps where p: "split_on sep a = p # ps"
    using split_on_not_Nil[of sep a] by (cases "split_on sep a") auto
  show ?case
    by (simp add: Cons.IH p)
qed

lemma replace_backslashes_append:
  "replace_backslashes (a @ b) = replace_backslashes a @ replace_backslashes b"
  by (simp add: replace_backslashes_def)

lemma replace_backslashes_id:
  "CHR 0x5C \<notin> set s \<Longrightarrow> replace_backslashes s = s"
  by (induction s) (auto simp: replace_backslashes_def)

lemma replace_backslashes_no_slash:
  "CHR ''/'' \<notin> set s \<Longrightarrow> CHR 0x5C \<notin> set s \<Longrightarrow> CHR ''/'' \<notin> set (replace_backslashes s)"
  by (auto simp: replace_backslashes_def)

lemma parts_of_path:
  assumes slug: "CHR ''/'' \<notin> set slug" "CHR 0x5C \<notin> set slug"
    and leaf: "CHR ''/'' \<notin> set leaf" "CHR 0x5C \<notin> set leaf"
    and sep: "sep = CHR ''/'' \<or> sep = CHR 0x5C"
    and dir: "dir = [] \<or> last dir = CHR ''/'' \<or> last dir = CHR 0x5C"
  shows "\<exists>before. split_on (CHR ''/'') (replace_backslashes (dir @ slug @ sep # leaf))
           = before @ [slug, leaf]"
proof -
  have norm: "replace_backslashes (dir @ slug @ sep # leaf)
      = replace_backslashes dir @ slug @ CHR ''/'' # leaf"
  proof -
    have "replace_backslashes [sep] = [CHR ''/'']"
      using sep by (auto simp: replace_backslashes_def)
    then have "replace_backslashes (sep # leaf) = CHR ''/'' # leaf"
      using replace_backslashes_append[of "[sep]" leaf] leaf
      by (simp add: replace_backslashes_id)
    then show ?thesis
      using slug by (simp add: replace_backslashes_append replace_backslashes_id)
  qed
  have tail: "split_on (CHR ''/'') (d @ slug @ CHR ''/'' # leaf)
      = split_on (CHR ''/'') (d @ slug) @ [leaf]" for d
    using split_on_append_sep[of "CHR ''/''" "d @ slug" leaf] leaf
    by (simp add: split_on_no_sep)
  show ?thesis
  proof (cases "dir = []")
    case True
    have "replace_backslashes dir = []"
      using True by (simp add: replace_backslashes_def)
    then have "split_on (CHR ''/'') (replace_backslashes (dir @ slug @ sep # leaf)) = [] @ [slug, leaf]"
      using tail[of "[]"] slug by (simp add: norm split_on_no_sep)
    then show ?thesis ..
  next
    case False
    then obtain d c where d: "dir = d @ [c]" "c = CHR ''/'' \<or> c = CHR 0x5C"
      using dir by (metis append_butlast_last_id)
    have "replace_backslashes dir = replace_backslashes d @ [CHR ''/'']"
      using d by (auto simp: replace_backslashes_def)
    then have "split_on (CHR ''/'') (replace_backslashes dir @ slug)
        = split_on (CHR ''/'') (replace_backslashes d) @ [slug]"
      using split_on_append_sep[of "CHR ''/''" "replace_backslashes d" slug] slug
      by (simp add: split_on_no_sep)
    then have "split_on (CHR ''/'') (replace_backslashes (dir @ slug @ sep # leaf))
        = split_on (CHR ''/'') (replace_backslashes d) @ [slug, leaf]"
      using tail[of "replace_backslashes dir"] by (simp add: norm)
    then show ?thesis ..
  qed
qed

lemma getCategoryFromPath_parts:
  assumes "split_on (CHR ''/'') (replace_backslashes p) = before @ [slug, leaf]"
  shows "getCategoryFromPath (Some p) = (if test_slug slug then toLowerCase slug else [])"
proof -
  have "p \<noteq> []"
    using assms by (auto simp: replace_backslashes_def)
  then show ?thesis
    using assms by (simp add: getCategoryFromPath_def Let_def nth_append)
qed

section \<open>The file gate and the record builder\<close>

lemma demo_file_simps [simp]:
  "f_name (demo_file n) = n" "f_size (demo_file n) = 1000" "f_type (demo_file n) = ''image/png''"
  by (simp_all add: demo_file_def)

lemma within_limit_iff:
  "(of_nat n / 1048576 \<le> (m::rat)) = (of_nat n \<le> m * 1048576)"
  by (simp add: pos_divide_le_eq)

lemma over_limit_iff:
  "((m::rat) < of_nat n / 1048576) = (m * 1048576 < of_nat n)"
  by (simp add: pos_less_divide_eq)

lemma substring_0_take: "substring_0 n s = take n s"
  by (simp add: substring_0_def min_def)

lemma images_prepareFiles:
  "images (prepareFiles files s)
     = filter (\<lambda>f. of_nat (f_size f) \<le> MAX_FILE_SIZE_MB s * 1024 * 1024) files"
  by (simp add: prepareFiles_def Let_def emit_def alert_def showPreview_def within_limit_iff
      mult.commute)

lemma processedData_prepareFiles: "processedData (prepareFiles files s) = []"
  by (simp add: prepareFiles_def Let_def emit_def alert_def showPreview_def)

lemma no_double_between:
  fixes m :: int and a b :: nat
  assumes m: "\<bar>m\<bar> < 2 ^ 53"
  shows "(5404319552844595 / 9007199254740992 < (of_int m * 2 ^ a / 2 ^ b :: rat))
         = (6 / 10 < (of_int m * 2 ^ a / 2 ^ b :: rat))"
proof
  assume "6 / 10 < (of_int m * 2 ^ a / 2 ^ b :: rat)"
  then show "5404319552844595 / 9007199254740992 < (of_int m * 2 ^ a / 2 ^ b :: rat)"
    by simp
next
  let ?r = "of_int m * 2 ^ a / 2 ^ b :: rat"
  assume c: "5404319552844595 / 9007199254740992 < ?r"
  show "6 / 10 < ?r"
  proof (cases "b \<le> a + 53")
    case True
    define k where "k = m * 2 ^ (a + 53 - b)"
    have "(2::rat) ^ (a + 53) = 2 ^ (a + 53 - b) * 2 ^ b"
      using True by (simp flip: power_add)
    then have "?r * 2 ^ 53 = of_int m * 2 ^ (a + 53 - b)"
      by (simp add: power_add field_simps)
    then have r: "?r = of_int k / 2 ^ 53"
      by (simp add: k_def field_simps)
    have "(5404319552844595::rat) < of_int k"
      using c unfolding r by (simp add: field_simps)
    then have "5404319552844595 < k"
      by (metis of_int_less_iff of_int_numeral)
    then have "5404319552844596 \<le> k"
      by simp
    then have "(5404319552844596::rat) \<le> of_int k"
      by (metis of_int_le_iff of_int_numeral)
    then show ?thesis
      unfolding r by (simp add: field_simps)
  next
    case False
    then have b: "b = (a + 54) + (b - (a + 54))"
      by simp
    have "m < 2 ^ 53"
      using m by simp
    then have "(of_int m :: rat) < 2 ^ 53"
      by (metis of_int_less_iff of_int_numeral of_int_power)
    then have "(of_int m :: rat) * 2 ^ a < 2 ^ 53 * 2 ^ a"
      by simp
    also have "\<dots> * 2 = 2 ^ (a + 54)"
      by (simp add: power_add)
    finally have "(of_int m :: rat) * 2 ^ a * 2 < 2 ^ (a + 54)"
      by simp
    also have "\<dots> \<le> 2 ^ b"
      using False by (simp add: power_increasing)
    finally have "?r < 1 / 2"
      by (simp add: field_simps)
    then show ?thesis
      using c by linarith
  qed
qed

text \<open>
  A double is \<open>m * 2\<^sup>a / 2\<^sup>b\<close> with \<open>\<bar>m\<bar> < 2\<^sup>5\<^sup>3\<close>. On a score that is a double, the test
  of \<open>score_passes\<close> against \<open>6/10\<close> is the source's comparison with the double \<open>0.6\<close>.
\<close>

lemma score_passes_on_doubles:
  fixes m :: int and a b :: nat
  assumes "\<bar>m\<bar> < 2 ^ 53" and "l_score l = Some (of_int m * 2 ^ a / 2 ^ b)"
  shows "score_passes l
         = (of_int m * 2 ^ a / 2 ^ b \<noteq> (0::rat) \<and> double_0_6 < of_int m * 2 ^ a / 2 ^ b)"
  using no_double_between[OF assms(1), of a b] assms(2)
  by (simp add: score_passes_def double_0_6_def)

lemma description_build_record:
  "description (build_record meta v) = (case v_description v of None \<Rightarrow> [] | Some d \<Rightarrow> take 100 d)"
  by (simp add: build_record_def Let_def substring_0_take split: option.splits)

lemma tags_build_record:
  "tags (build_record meta v)
     = (let kept = map (\<lambda>l. toLowerCase (l_description l))
                     (filter (\<lambda>l. case l_score l of None \<Rightarrow> False | Some r \<Rightarrow> 6 / 10 < r)
                        (case v_labels v of None \<Rightarrow> [] | Some ls \<Rightarrow> ls))
        in if kept = [] then [] else [CHR 0x22] @ join '', '' kept @ [CHR 0x22])"
proof -
  have p: "score_passes = (\<lambda>l. case l_score l of None \<Rightarrow> False | Some r \<Rightarrow> 6 / 10 < r)"
    by (auto simp: score_passes_def fun_eq_iff split: option.splits)
  show ?thesis
    by (cases "v_labels v") (auto simp: build_record_def Let_def p)
qed

lemma complete_item_appends:
  "processedData (complete_item i meta v s) = processedData s @ [build_record meta v]"
  by (simp add: complete_item_def Let_def emit_def appendRow_def updateItemStatus_def)

section \<open>What a run leaves in the trace\<close>

lemma progress_of_append: "progress_of (xs @ ys) = progress_of xs @ progress_of ys"
  by (induction xs rule: progress_of.induct) simp_all

lemma statuses_of_append: "statuses_of (xs @ ys) = statuses_of xs @ statuses_of ys"
  by (induction xs rule: statuses_of.induct) simp_all

lemma alerts_of_append: "alerts_of (xs @ ys) = alerts_of xs @ alerts_of ys"
  by (induction xs rule: alerts_of.induct) simp_all

lemma processing_errors_of_append:
  "processing_errors_of (xs @ ys) = processing_errors_of xs @ processing_errors_of ys"
  by (induction xs rule: processing_errors_of.induct) simp_all

lemma delays_of_append: "delays_of (xs @ ys) = delays_of xs @ delays_of ys"
  by (induction xs rule: delays_of.induct) simp_all

lemma client_effects_cases:
  "client_effects env apiKey file =
     (case fst (analyzeVision_try env file apiKey blank_processor) of
        Inr v \<Rightarrow> []
      | Inl e \<Rightarrow>
          (if readAsDataURL env file = None then [Alert (ReadError (f_name file))] else [])
          @ [ConsoleError ''Error al llamar a Vision API:'' e])"
  by (simp add: client_effects_def analyzeVision_def analyzeVision_try_def imageToBase64_def
      blank_processor_def alert_def emit_def split: option.splits sum.splits)

lemma client_effects_projections:
  "progress_of (client_effects env apiKey file) = []"
  "statuses_of (client_effects env apiKey file) = []"
  "delays_of (client_effects env apiKey file) = []"
  "processing_errors_of (client_effects env apiKey file) = []"
  by (simp_all add: client_effects_cases split: sum.splits)

lemma read_failure_has_error:
  "readAsDataURL env file = None \<Longrightarrow> has_error (vision_of env apiKey file)"
  by (simp add: vision_of_def has_error_def analyzeVision_def analyzeVision_try_def
      imageToBase64_def or_string_def)

lemma alerts_of_client_effects:
  "alerts_of (client_effects env apiKey file)
     = (if readAsDataURL env file = None then [ReadError (f_name file)] else [])"
  by (simp add: client_effects_def analyzeVision_def analyzeVision_try_def imageToBase64_def
      blank_processor_def alert_def emit_def split: option.splits sum.splits)

lemma progress_of_item_effects:
  "progress_of (item_effects env apiKey n i file) = [progress_percent i n]"
  by (simp add: item_effects_def progress_of_append client_effects_projections)

lemma statuses_of_item_effects:
  "statuses_of (item_effects env apiKey n i file)
     = [(i, if has_error (vision_of env apiKey file) then ''error'' else ''completed'')]"
  by (simp add: item_effects_def statuses_of_append client_effects_projections)

lemma delays_of_item_effects:
  "delays_of (item_effects env apiKey n i file)
     = (if has_error (vision_of env apiKey file) then [] else [200])"
  by (simp add: item_effects_def delays_of_append client_effects_projections)

lemma processing_errors_of_item_effects:
  "processing_errors_of (item_effects env apiKey n i file)
     = (if has_error (vision_of env apiKey file)
        then [(f_name file, error_text (vision_of env apiKey file))] else [])"
  by (simp add: item_effects_def processing_errors_of_append client_effects_projections)

lemma alerts_of_item_effects:
  "alerts_of (item_effects env apiKey n i file)
     = (if readAsDataURL env file = None then [ReadError (f_name file)] else [])
       @ (if has_error (vision_of env apiKey file)
          then [ProcessingError (f_name file) (error_text (vision_of env apiKey file))] else [])"
  by (simp add: item_effects_def alerts_of_append alerts_of_client_effects)

lemma progress_of_loop_effects:
  "progress_of (loop_effects env apiKey n i fs)
     = map (\<lambda>j. progress_percent j n) [i..<i + length fs]"
proof (induction fs arbitrary: i)
  case Nil
  show ?case by simp
next
  case (Cons f fs)
  have "[i..<i + length (f # fs)] = i # [Suc i..<Suc i + length fs]"
    by (simp add: upt_rec)
  then show ?case
    by (simp add: progress_of_append progress_of_item_effects Cons.IH)
qed

lemma statuses_of_loop_effects:
  "statuses_of (loop_effects env apiKey n i fs)
     = map (\<lambda>(j, f). (j, if has_error (vision_of env apiKey f) then ''error'' else ''completed''))
         (enumerate i fs)"
  by (induction fs arbitrary: i) (simp_all add: statuses_of_append statuses_of_item_effects)

lemma delays_of_loop_effects:
  "delays_of (loop_effects env apiKey n i fs)
     = map (\<lambda>f. 200) (filter (\<lambda>f. \<not> has_error (vision_of env apiKey f)) fs)"
  by (induction fs arbitrary: i) (simp_all add: delays_of_append delays_of_item_effects)

lemma processing_errors_of_loop_effects:
  "processing_errors_of (loop_effects env apiKey n i fs)
     = map (\<lambda>f. (f_name f, error_text (vision_of env apiKey f)))
         (filter (\<lambda>f. has_error (vision_of env apiKey f)) fs)"
  by (induction fs arbitrary: i)
     (simp_all add: processing_errors_of_append processing_errors_of_item_effects)

lemma length_alerts_of_loop_effects:
  "length (alerts_of (loop_effects env apiKey n i fs))
     = length (filter (\<lambda>f. has_error (vision_of env apiKey f)) fs)
       + length (filter (\<lambda>f. readAsDataURL env f = None) fs)"
  by (induction fs arbitrary: i) (simp_all add: alerts_of_append alerts_of_item_effects)

lemma concat_item_records:
  "concat (map (item_records env apiKey) fs)
     = map (\<lambda>f. build_record (extractMetadata env f) (vision_of env apiKey f))
         (filter (\<lambda>f. \<not> has_error (vision_of env apiKey f)) fs)"
  by (induction fs) (simp_all add: item_records_def)

lemma processedData_processWithVision:
  "processedData (snd (processWithVision env apiKey s))
     = processedData s
       @ map (\<lambda>f. build_record (extractMetadata env f) (vision_of env apiKey f))
           (filter (\<lambda>f. \<not> has_error (vision_of env apiKey f)) (images s))"
  by (simp add: processWithVision_frame concat_item_records)

lemma images_processWithVision: "images (snd (processWithVision env apiKey s)) = images s"
  by (simp add: processWithVision_frame)

lemma processWithVision_completes: "fst (processWithVision env apiKey s) = None"
  by (simp add: processWithVision_frame)

subsection \<open>Rounding to doubles\<close>

lemma round_half_even_error: "\<bar>of_int (round_half_even t) - t\<bar> \<le> 1 / 2"
proof -
  have "of_int \<lfloor>t\<rfloor> \<le> t" "t < of_int \<lfloor>t\<rfloor> + 1"
    by linarith+
  then show ?thesis
    by (auto simp: round_half_even_def Let_def)
qed

lemma ilog2_lower:
  assumes "0 < x"
  shows "2 powi (ilog2 x) \<le> x"
proof -
  obtain p q where pq: "quotient_of x = (p, q)"
    by (cases "quotient_of x")
  have q: "0 < q"
    using quotient_of_denom_pos[OF pq] .
  have x: "x = of_int p / of_int q"
    using quotient_of_div[OF pq] .
  have p: "0 < p"
    using assms q unfolding x by (simp add: zero_less_divide_iff)
  let ?e0 = "bitlen p - bitlen q"
  show ?thesis
  proof (cases "2 powi ?e0 \<le> x")
    case True
    then show ?thesis
      by (simp add: ilog2_def pq)
  next
    case False
    have bp: "1 \<le> bitlen p" "1 \<le> bitlen q"
      using p q bitlen_eq_zero_iff[of p] bitlen_eq_zero_iff[of q] bitlen_nonneg[of p] bitlen_nonneg[of q]
      by linarith+
    have "2 ^ nat (bitlen p - 1) \<le> p" and "q < 2 ^ nat (bitlen q)"
      using bitlen_bounds[OF p] bitlen_bounds[OF q] by simp_all
    then have P: "(2::rat) ^ nat (bitlen p - 1) \<le> of_int p"
      and Q: "(of_int q :: rat) < 2 ^ nat (bitlen q)"
      by (metis of_int_le_iff of_int_numeral of_int_power, metis of_int_less_iff of_int_numeral of_int_power)
    have "(2::rat) powi (?e0 - 1) = 2 powi (bitlen p - 1) / 2 powi (bitlen q)"
      by (simp add: power_int_diff power_int_add algebra_simps)
    also have "\<dots> = 2 ^ nat (bitlen p - 1) / 2 ^ nat (bitlen q)"
      using bp by (simp add: power_int_def)
    also have "\<dots> \<le> of_int p / of_int q"
      using P Q q p by (intro frac_le) simp_all
    finally have "2 powi (?e0 - 1) \<le> x"
      by (simp add: x)
    moreover have "ilog2 x = ?e0 - 1"
      using False by (simp add: ilog2_def pq)
    ultimately show ?thesis
      by simp
  qed
qed

lemma ilog2_upper:
  assumes "0 < x"
  shows "x < 2 powi (ilog2 x + 1)"
proof -
  obtain p q where pq: "quotient_of x = (p, q)"
    by (cases "quotient_of x")
  have q: "0 < q"
    using quotient_of_denom_pos[OF pq] .
  have x: "x = of_int p / of_int q"
    using quotient_of_div[OF pq] .
  have p: "0 < p"
    using assms q unfolding x by (simp add: zero_less_divide_iff)
  let ?e0 = "bitlen p - bitlen q"
  show ?thesis
  proof (cases "2 powi ?e0 \<le> x")
    case False
    then show ?thesis
      by (simp add: ilog2_def pq)
  next
    case True
    have bp: "1 \<le> bitlen p" "1 \<le> bitlen q"
      using p q bitlen_eq_zero_iff[of p] bitlen_eq_zero_iff[of q] bitlen_nonneg[of p] bitlen_nonneg[of q]
      by linarith+
    have "p < 2 ^ nat (bitlen p)" and "2 ^ nat (bitlen q - 1) \<le> q"
      using bitlen_bounds[OF p] bitlen_bounds[OF q] by simp_all
    then have P: "(of_int p :: rat) < 2 ^ nat (bitlen p)"
      and Q: "(2::rat) ^ nat (bitlen q - 1) \<le> of_int q"
      by (metis of_int_less_iff of_int_numeral of_int_power, metis of_int_le_iff of_int_numeral of_int_power)
    have "of_int p / of_int q < (2::rat) ^ nat (bitlen p) / 2 ^ nat (bitlen q - 1)"
      using P Q q p by (intro frac_less) simp_all
    also have "\<dots> = 2 powi (bitlen p) / 2 powi (bitlen q - 1)"
      using bp by (simp add: power_int_def)
    also have "\<dots> = 2 powi (?e0 + 1)"
      by (simp add: power_int_diff power_int_add algebra_simps)
    finally have "x < 2 powi (?e0 + 1)"
      by (simp add: x)
    moreover have "ilog2 x = ?e0"
      using True by (simp add: ilog2_def pq)
    ultimately show ?thesis
      by simp
  qed
qed

lemma round_double_error:
  assumes "0 < x"
  shows "\<bar>round_double x - x\<bar> \<le> x / 2 ^ 53"
proof -
  define e where "e = ilog2 x - 52"
  define m where "m = round_half_even (x / 2 powi e)"
  have pos: "(0::rat) < 2 powi e"
    by simp
  have rd: "round_double x = of_int m * 2 powi e"
    using assms by (simp add: round_double_def e_def m_def Let_def)
  have "\<bar>of_int m - x / 2 powi e\<bar> \<le> 1 / 2"
    unfolding m_def by (rule round_half_even_error)
  then have "\<bar>of_int m - x / 2 powi e\<bar> * 2 powi e \<le> 1 / 2 * 2 powi e"
    using pos by (intro mult_right_mono) simp_all
  moreover have "\<bar>of_int m - x / 2 powi e\<bar> * 2 powi e = \<bar>of_int m * 2 powi e - x\<bar>"
  proof -
    have "\<bar>of_int m - x / 2 powi e\<bar> * 2 powi e = \<bar>(of_int m - x / 2 powi e) * 2 powi e\<bar>"
      using pos by (simp add: abs_mult)
    also have "(of_int m - x / 2 powi e) * 2 powi e = of_int m * 2 powi e - x"
      using pos by (simp add: field_simps)
    finally show ?thesis .
  qed
  ultimately have b: "\<bar>round_double x - x\<bar> \<le> 2 powi e / 2"
    by (simp add: rd)
  have "(2::rat) powi (ilog2 x) = 2 powi e * 2 ^ 52"
    by (simp add: e_def power_int_diff)
  then have "2 powi e * 2 ^ 52 \<le> x"
    using ilog2_lower[OF assms] by simp
  then have "2 powi e / 2 \<le> x / 2 ^ 53"
    by (simp add: field_simps)
  then show ?thesis
    using b by linarith
qed


lemma round_double_bounds:
  assumes "0 < x"
  shows "x * (1 - unit_roundoff) \<le> round_double x"
    and "round_double x \<le> x * (1 + unit_roundoff)"
proof -
  have e: "x / 2 ^ 53 = x * unit_roundoff"
    by (simp add: unit_roundoff_def)
  have "\<bar>round_double x - x\<bar> \<le> x * unit_roundoff"
    using round_double_error[OF assms] by (simp only: e)
  then have "round_double x - x \<le> x * unit_roundoff" "x - round_double x \<le> x * unit_roundoff"
    by linarith+
  then show "x * (1 - unit_roundoff) \<le> round_double x"
    and "round_double x \<le> x * (1 + unit_roundoff)"
    by (simp_all add: algebra_simps)
qed

lemma unit_roundoff_bounds: "0 < unit_roundoff" "unit_roundoff < 1"
  by (simp_all add: unit_roundoff_def)

lemma round_double_pos: "0 < x \<Longrightarrow> 0 < round_double x"
proof -
  assume x: "0 < x"
  have "0 < x * (1 - unit_roundoff)"
    using x unit_roundoff_bounds by simp
  then show ?thesis
    using round_double_bounds(1)[OF x] by linarith
qed

lemma progress_percent_upper:
  assumes "0 < n"
  shows "progress_percent i n
         \<le> (of_nat (i + 1) * ((1 + unit_roundoff) * (1 + unit_roundoff))) * (100 / of_nat n)"
proof -
  let ?x = "of_nat (i + 1) / of_nat n :: rat"
  have x: "0 < ?x"
    using assms by simp
  have X: "0 < round_double ?x * 100"
    using round_double_pos[OF x] by simp
  have u: "0 \<le> 1 + unit_roundoff"
    using unit_roundoff_bounds by simp
  have "progress_percent i n \<le> (round_double ?x * 100) * (1 + unit_roundoff)"
    unfolding progress_percent_def js_mul_def js_div_def
    by (rule round_double_bounds(2)[OF X])
  also have "\<dots> \<le> ((?x * (1 + unit_roundoff)) * 100) * (1 + unit_roundoff)"
    using round_double_bounds(2)[OF x] u by (intro mult_right_mono) simp_all
  also have "\<dots> = (of_nat (i + 1) * ((1 + unit_roundoff) * (1 + unit_roundoff))) * (100 / of_nat n)"
    by simp
  finally show ?thesis .
qed

lemma progress_percent_lower:
  assumes "0 < n"
  shows "(of_nat (i + 1) * ((1 - unit_roundoff) * (1 - unit_roundoff))) * (100 / of_nat n)
         \<le> progress_percent i n"
proof -
  let ?x = "of_nat (i + 1) / of_nat n :: rat"
  have x: "0 < ?x"
    using assms by simp
  have X: "0 < round_double ?x * 100"
    using round_double_pos[OF x] by simp
  have u: "0 \<le> 1 - unit_roundoff"
    using unit_roundoff_bounds by simp
  have "(of_nat (i + 1) * ((1 - unit_roundoff) * (1 - unit_roundoff))) * (100 / of_nat n)
        = ((?x * (1 - unit_roundoff)) * 100) * (1 - unit_roundoff)"
    by simp
  also have "\<dots> \<le> (round_double ?x * 100) * (1 - unit_roundoff)"
    using round_double_bounds(1)[OF x] u by (intro mult_right_mono) simp_all
  also have "\<dots> \<le> progress_percent i n"
    unfolding progress_percent_def js_mul_def js_div_def
    by (rule round_double_bounds(1)[OF X])
  finally show ?thesis .
qed

lemma roundoff_gap:
  fixes a b :: rat
  assumes "0 \<le> a" "a < 2 ^ 32" "a + 1 \<le> b"
  shows "a * ((1 + unit_roundoff) * (1 + unit_roundoff))
         < b * ((1 - unit_roundoff) * (1 - unit_roundoff))"
proof -
  have c1: "(1 + unit_roundoff) * (1 + unit_roundoff)
      = (1 - unit_roundoff) * (1 - unit_roundoff) + 4 * unit_roundoff"
    by (simp add: algebra_simps)
  have c2: "1 / 2 \<le> (1 - unit_roundoff) * (1 - unit_roundoff)"
    by (simp add: unit_roundoff_def)
  have "a * (4 * unit_roundoff) \<le> 2 ^ 32 * (4 * unit_roundoff)"
    using assms(2) unit_roundoff_bounds by (intro mult_right_mono) simp_all
  also have "\<dots> < 1 / 2"
    by (simp add: unit_roundoff_def)
  finally have small: "a * (4 * unit_roundoff) < (1 - unit_roundoff) * (1 - unit_roundoff)"
    using c2 by linarith
  have "a * ((1 + unit_roundoff) * (1 + unit_roundoff))
      = a * ((1 - unit_roundoff) * (1 - unit_roundoff)) + a * (4 * unit_roundoff)"
    by (simp add: algebra_simps)
  also have "\<dots> < a * ((1 - unit_roundoff) * (1 - unit_roundoff))
                  + (1 - unit_roundoff) * (1 - unit_roundoff)"
    using small by simp
  also have "\<dots> = (a + 1) * ((1 - unit_roundoff) * (1 - unit_roundoff))"
    by (simp add: algebra_simps)
  also have "\<dots> \<le> b * ((1 - unit_roundoff) * (1 - unit_roundoff))"
    using assms(3) by (intro mult_right_mono) simp_all
  finally show ?thesis .
qed

lemma progress_percent_strict_mono:
  assumes n: "0 < n" and ij: "i < j" and j: "j < 2 ^ 32"
  shows "progress_percent i n < progress_percent j n"
proof -
  let ?a = "of_nat (i + 1) :: rat"
  let ?b = "of_nat (j + 1) :: rat"
  have N: "(0::rat) < 100 / of_nat n"
    using n by simp
  have ab: "?a + 1 \<le> ?b"
    using ij by (simp flip: of_nat_Suc)
  have "i + 1 < 2 ^ 32"
    using ij j by simp
  then have "of_nat (i + 1) < (of_nat (2 ^ 32) :: rat)"
    by (intro of_nat_less_iff[THEN iffD2])
  then have a: "?a < 2 ^ 32"
    by simp
  have a0: "0 \<le> ?a"
    by simp
  have "progress_percent i n
      \<le> (?a * ((1 + unit_roundoff) * (1 + unit_roundoff))) * (100 / of_nat n)"
    by (rule progress_percent_upper[OF n])
  also have "\<dots> < (?b * ((1 - unit_roundoff) * (1 - unit_roundoff))) * (100 / of_nat n)"
    using roundoff_gap[OF a0 a ab] N by (rule mult_strict_right_mono)
  also have "\<dots> \<le> progress_percent j n"
    by (rule progress_percent_lower[OF n])
  finally show ?thesis .
qed


lemma progress_percent_last: "0 < n \<Longrightarrow> progress_percent (n - 1) n = 100"
proof -
  assume n: "0 < n"
  have one: "round_double 1 = 1"
    by code_simp
  have hundred: "round_double 100 = 100"
    by code_simp
  have "(of_nat (n - 1 + 1) :: rat) / of_nat n = 1"
    using n by simp
  then show ?thesis
    by (simp only: progress_percent_def js_mul_def js_div_def one mult_1 hundred)
qed

text \<open>
  The operands of the two roundings of a percentage are within the range of normal
  doubles, where \<open>round_double\<close> is the rounding of the double format.
\<close>

lemma progress_operands_in_range:
  assumes n: "n < 2 ^ 32" and i: "i < n"
  shows "1 / 2 ^ 33 \<le> (of_nat (i + 1) / of_nat n :: rat)"
    and "(of_nat (i + 1) / of_nat n :: rat) \<le> 1"
    and "1 / 2 ^ 33 \<le> js_div (of_nat (i + 1)) (of_nat n) * 100"
    and "js_div (of_nat (i + 1)) (of_nat n) * 100 \<le> 128"
proof -
  let ?x = "of_nat (i + 1) / of_nat n :: rat"
  have n0: "(0::rat) < of_nat n"
    using i by simp
  have "of_nat n < (of_nat (2 ^ 32) :: rat)"
    using n by (intro of_nat_less_iff[THEN iffD2])
  then have n32: "(of_nat n :: rat) \<le> 2 ^ 32"
    by simp
  have "(1::rat) / 2 ^ 32 \<le> 1 / of_nat n"
    using n0 n32 by (intro divide_left_mono) simp_all
  also have "\<dots> \<le> ?x"
    using n0 by (intro divide_right_mono) simp_all
  finally have lo: "1 / 2 ^ 32 \<le> ?x" .
  have "(1::rat) / 2 ^ 33 \<le> 1 / 2 ^ 32"
    by simp
  then show "1 / 2 ^ 33 \<le> ?x"
    using lo by (rule order_trans)
  have "of_nat (i + 1) \<le> (of_nat n :: rat)"
    using i by (intro of_nat_le_iff[THEN iffD2]) simp
  then show hi: "?x \<le> 1"
    using n0 by (simp add: divide_le_eq)
  define x where "x = ?x"
  define r where "r = round_double x"
  have x0: "0 < x" and xlo: "1 / 2 ^ 32 \<le> x" and xhi: "x \<le> 1"
    using n0 lo hi by (simp_all add: x_def)
  have u: "(1::rat) / 2 \<le> 1 - unit_roundoff" "1 + unit_roundoff \<le> (5::rat) / 4"
    by (simp_all add: unit_roundoff_def)
  have "1 / 2 ^ 32 * (1 / 2) \<le> x * (1 - unit_roundoff)"
    using xlo u(1) by (intro mult_mono) simp_all
  moreover have "x * (1 - unit_roundoff) \<le> r"
    unfolding r_def by (rule round_double_bounds(1)[OF x0])
  moreover have "(1::rat) / 2 ^ 33 = 1 / 2 ^ 32 * (1 / 2)"
    by simp
  ultimately have rlo: "1 / 2 ^ 33 \<le> r"
    by linarith
  have "x * (1 + unit_roundoff) \<le> 1 * (5 / 4)"
    using xhi u(2) x0 unit_roundoff_bounds by (intro mult_mono) simp_all
  moreover have "r \<le> x * (1 + unit_roundoff)"
    unfolding r_def by (rule round_double_bounds(2)[OF x0])
  ultimately have rhi: "r \<le> 5 / 4"
    by linarith
  have r0: "0 \<le> r"
    using rlo by (rule order_trans[rotated]) simp
  have "1 / 2 ^ 33 \<le> r * 100" "r * 100 \<le> 128"
    using rlo rhi r0 by linarith+
  then show "1 / 2 ^ 33 \<le> js_div (of_nat (i + 1)) (of_nat n) * 100"
    and "js_div (of_nat (i + 1)) (of_nat n) * 100 \<le> 128"
    by (simp_all only: js_div_def r_def x_def)
qed

lemma round_double_six_tenths: "round_double (6 / 10) = double_0_6"
  unfolding double_0_6_def by code_simp

lemma progress_percent_sorted:
  "n < 2 ^ 32 \<Longrightarrow> sorted_wrt (<) (map (\<lambda>i. progress_percent i n) [0..<n])"
  by (simp add: sorted_wrt_iff_nth_less progress_percent_strict_mono)

lemma progress_percent_thirds:
  "progress_percent 0 3 = 2345624805922133 / 70368744177664"
  "progress_percent 1 3 = 2345624805922133 / 35184372088832"
  "progress_percent 2 3 = 100"
  by code_simp+

lemma progress_percent_thirds_Suc:
  "progress_percent 0 (Suc (Suc (Suc 0))) = 2345624805922133 / 70368744177664"
  "progress_percent (Suc 0) (Suc (Suc (Suc 0))) = 2345624805922133 / 35184372088832"
  "progress_percent (Suc (Suc 0)) (Suc (Suc (Suc 0))) = 100"
  by code_simp+

lemma process_item_effects:
  "drop (length (trace s)) (trace (snd (process_item env apiKey i file s)))
     = item_effects env apiKey (length (images s)) i file"
  by (simp add: process_item_frame)

lemma last_item_effects:
  "last (item_effects env apiKey n i file)
     = (if has_error (vision_of env apiKey file) then UpdateItemStatus i ''error'' else Delay 200)"
  by (simp add: item_effects_def)

lemma last_trace_process_item:
  "last (trace (snd (process_item env apiKey i file s)))
     = (if has_error (vision_of env apiKey file) then UpdateItemStatus i ''error'' else Delay 200)"
proof -
  have "item_effects env apiKey (length (images s)) i file \<noteq> []"
    by (simp add: item_effects_def)
  then show ?thesis
    by (simp add: process_item_frame last_item_effects)
qed

lemma alerts_of_loop_effects_Cons:
  "alerts_of (loop_effects env apiKey n i (f # fs))
     = alerts_of (item_effects env apiKey n i f) @ alerts_of (loop_effects env apiKey n (Suc i) fs)"
  by (simp add: alerts_of_append)

lemma alerts_of_completed_item:
  "\<not> has_error (vision_of env apiKey file) \<Longrightarrow>
   alerts_of (item_effects env apiKey n i file) = []"
  using read_failure_has_error[of env "file" apiKey]
  by (auto simp: alerts_of_item_effects)

lemma alerts_of_failed_item:
  "has_error (vision_of env apiKey file) \<Longrightarrow>
   alerts_of (item_effects env apiKey n i file)
     = (if readAsDataURL env file = None then [ReadError (f_name file)] else [])
       @ [ProcessingError (f_name file) (error_text (vision_of env apiKey file))]"
  by (simp add: alerts_of_item_effects)

section \<open>The stubbed environment, evaluated\<close>

lemmas client_defs = vision_of_def client_effects_def analyzeVision_def analyzeVision_try_def
  imageToBase64_def base64_part_def classify_response_def vision_request_def vision_url_def
  at_index_def or_string_def first_response_def best_guess_def blank_processor_def alert_def
  emit_def exn_to_string_def exn_name_def

lemmas demo_defs = demo_env_def demo_fetch_def demo_body_def quota_body_def quota_response_def
  gateway_response_def

lemma demo_vision_a:
  "vision_of demo_env ''k'' (demo_file ''a.png'')
     = \<lparr>v_labels = Some demo_labels, v_description = Some ''cat on a sofa'', v_error = None\<rparr>"
  by (simp add: client_defs demo_defs)

lemma demo_vision_c:
  "vision_of demo_env ''k'' (demo_file ''c.png'')
     = \<lparr>v_labels = Some demo_labels, v_description = Some ''cat on a sofa'', v_error = None\<rparr>"
  by (simp add: client_defs demo_defs)

lemma demo_vision_offline:
  "vision_of demo_env ''k'' (demo_file ''offline.png'')
     = \<lparr>v_labels = Some [], v_description = Some [], v_error = Some ''Failed to fetch''\<rparr>"
  by (simp add: client_defs demo_defs)

lemma demo_vision_unreadable:
  "vision_of demo_env ''k'' (demo_file ''unreadable.png'')
     = \<lparr>v_labels = Some [], v_description = Some [], v_error = Some ''Lectura fallida''\<rparr>"
  by (simp add: client_defs demo_defs)

lemma demo_vision_quota:
  "vision_of demo_env ''k'' (demo_file ''quota.png'')
     = \<lparr>v_labels = Some [], v_description = Some [], v_error = Some ''API: Quota exceeded''\<rparr>"
  by (simp add: client_defs demo_defs)

lemma demo_vision_gateway:
  "vision_of demo_env ''k'' (demo_file ''gateway.png'')
     = \<lparr>v_labels = Some [], v_description = Some [],
        v_error = Some ''Unexpected token < in JSON at position 0''\<rparr>"
  by (simp add: client_defs demo_defs)

lemma demo_effects_a: "client_effects demo_env ''k'' (demo_file ''a.png'') = []"
  by (simp add: client_defs demo_defs)

lemma demo_effects_c: "client_effects demo_env ''k'' (demo_file ''c.png'') = []"
  by (simp add: client_defs demo_defs)

lemma demo_effects_offline:
  "client_effects demo_env ''k'' (demo_file ''offline.png'')
     = [ConsoleError ''Error al llamar a Vision API:'' (JsError TypeError ''Failed to fetch'')]"
  by (simp add: client_defs demo_defs)

lemma demo_effects_unreadable:
  "client_effects demo_env ''k'' (demo_file ''unreadable.png'')
     = [Alert (ReadError ''unreadable.png''),
        ConsoleError ''Error al llamar a Vision API:'' (JsError Error ''Lectura fallida'')]"
  by (simp add: client_defs demo_defs)

lemma demo_call_fails_gateway: "call_fails demo_env (demo_file ''gateway.png'') ''k''"
  by (simp add: call_fails_def client_defs demo_defs)

lemma demo_call_fails_a: "\<not> call_fails demo_env (demo_file ''a.png'') ''k''"
  by (simp add: call_fails_def client_defs demo_defs)

lemma demo_category:
  "CHR ''/'' \<notin> set n \<Longrightarrow> CHR 0x5C \<notin> set n \<Longrightarrow>
   getCategoryFromPath (Some (''photos/Animals/'' @ n)) = ''animals''"
proof -
  assume n: "CHR ''/'' \<notin> set n" "CHR 0x5C \<notin> set n"
  have t: "test_slug ''Animals''"
    by code_simp
  have l: "toLowerCase ''Animals'' = ''animals''"
    by code_simp
  have "split_on (CHR ''/'') (replace_backslashes (''photos/'' @ ''Animals'' @ CHR ''/'' # n))
      = [''photos''] @ [''Animals'', n]"
    using split_on_append_sep[of "CHR ''/''" "''photos/Animals''" n]
      split_on_append_sep[of "CHR ''/''" "''photos''" "''Animals''"] n
    by (simp add: replace_backslashes_id replace_backslashes_append split_on_no_sep)
  from getCategoryFromPath_parts[OF this] show ?thesis
    by (simp add: t l)
qed

lemma demo_build_record:
  "CHR ''/'' \<notin> set n \<Longrightarrow> CHR 0x5C \<notin> set n \<Longrightarrow>
   build_record (extractMetadata demo_env (demo_file n))
     \<lparr>v_labels = Some demo_labels, v_description = Some ''cat on a sofa'', v_error = None\<rparr>
   = demo_record n"
proof -
  assume n: "CHR ''/'' \<notin> set n" "CHR 0x5C \<notin> set n"
  have lc: "toLowerCase ''Cat'' = ''cat''"
    by code_simp
  show ?thesis
    by (simp add: build_record_def demo_record_def demo_env_def demo_labels_def
        score_passes_def substring_0_take demo_category[OF n, simplified] lc)
qed

lemma images_demo_batch:
  "images demo_batch = [demo_file ''a.png'', demo_file ''offline.png'', demo_file ''c.png'']"
  by (simp add: demo_batch_def images_prepareFiles new_ImageProcessor_def)

lemma images_demo_batch_unreadable:
  "images demo_batch_unreadable
     = [demo_file ''a.png'', demo_file ''unreadable.png'', demo_file ''c.png'']"
  by (simp add: demo_batch_unreadable_def images_prepareFiles new_ImageProcessor_def)

lemma processedData_demo_batch: "processedData demo_batch = []"
  by (simp add: demo_batch_def processedData_prepareFiles)

lemma demo_has_error:
  "\<not> has_error (vision_of demo_env ''k'' (demo_file ''a.png''))"
  "\<not> has_error (vision_of demo_env ''k'' (demo_file ''c.png''))"
  "has_error (vision_of demo_env ''k'' (demo_file ''offline.png''))"
  "has_error (vision_of demo_env ''k'' (demo_file ''unreadable.png''))"
  by (simp_all add: has_error_def demo_vision_a demo_vision_c demo_vision_offline
      demo_vision_unreadable)

lemma demo_error_text:
  "error_text (vision_of demo_env ''k'' (demo_file ''offline.png'')) = ''Failed to fetch''"
  "error_text (vision_of demo_env ''k'' (demo_file ''unreadable.png'')) = ''Lectura fallida''"
  by (simp_all add: error_text_def demo_vision_offline demo_vision_unreadable)

lemma demo_records:
  "build_record (extractMetadata demo_env (demo_file ''a.png''))
     (vision_of demo_env ''k'' (demo_file ''a.png'')) = demo_record ''a.png''"
  "build_record (extractMetadata demo_env (demo_file ''c.png''))
     (vision_of demo_env ''k'' (demo_file ''c.png'')) = demo_record ''c.png''"
  by (simp_all add: demo_vision_a demo_vision_c demo_build_record)

lemma run_effects_demo_batch:
  "run_effects demo_env ''k'' demo_batch =
     [ShowProgress,
      UpdateProgress (2345624805922133 / 70368744177664) ''Procesando a.png'',
      AppendRow (demo_record ''a.png''),
      UpdateItemStatus 0 ''completed'',
      Delay 200,
      UpdateProgress (2345624805922133 / 35184372088832) ''Procesando offline.png'',
      ConsoleError ''Error al llamar a Vision API:'' (JsError TypeError ''Failed to fetch''),
      Alert (ProcessingError ''offline.png'' ''Failed to fetch''),
      UpdateItemStatus 1 ''error'',
      UpdateProgress 100 ''Procesando c.png'',
      AppendRow (demo_record ''c.png''),
      UpdateItemStatus 2 ''completed'',
      Delay 200,
      UpdateProgress 100 ''Procesamiento completado'',
      ShowResults,
      HideProgressAfter 800]"
  by (simp add: run_effects_eq images_demo_batch item_effects_def demo_has_error demo_records
      demo_effects_a demo_effects_c demo_effects_offline demo_error_text
      progress_percent_thirds_Suc)

lemma run_effects_demo_batch_unreadable:
  "run_effects demo_env ''k'' demo_batch_unreadable =
     [ShowProgress,
      UpdateProgress (2345624805922133 / 70368744177664) ''Procesando a.png'',
      AppendRow (demo_record ''a.png''),
      UpdateItemStatus 0 ''completed'',
      Delay 200,
      UpdateProgress (2345624805922133 / 35184372088832) ''Procesando unreadable.png'',
      Alert (ReadError ''unreadable.png''),
      ConsoleError ''Error al llamar a Vision API:'' (JsError Error ''Lectura fallida''),
      Alert (ProcessingError ''unreadable.png'' ''Lectura fallida''),
      UpdateItemStatus 1 ''error'',
      UpdateProgress 100 ''Procesando c.png'',
      AppendRow (demo_record ''c.png''),
      UpdateItemStatus 2 ''completed'',
      Delay 200,
      UpdateProgress 100 ''Procesamiento completado'',
      ShowResults,
      HideProgressAfter 800]"
  by (simp add: run_effects_eq images_demo_batch_unreadable item_effects_def demo_has_error
      demo_records demo_effects_a demo_effects_c demo_effects_unreadable demo_error_text
      progress_percent_thirds_Suc)

section \<open>The claims\<close>

text \<open>
  C3. For a vision result without error, the tags of the record are the labels whose score
  is strictly above 0.6, each mapped to its lowercased text, in their original order. A
  non-empty list is stored as one string, the tags joined by a comma and a space and
  wrapped in double quotes; an empty list is stored as the empty string. The labels
  Cat at 0.9 and Animal at 0.5 give the quoted string \<open>cat\<close>; a score of exactly 0.6 does
  not pass.
\<close>

theorem tags_are_labels_above_threshold:
  "tags (build_record meta v)
     = (let kept = map (\<lambda>l. toLowerCase (l_description l))
                     (filter (\<lambda>l. case l_score l of None \<Rightarrow> False | Some r \<Rightarrow> 6 / 10 < r)
                        (case v_labels v of None \<Rightarrow> [] | Some ls \<Rightarrow> ls))
        in if kept = [] then [] else [CHR 0x22] @ join '', '' kept @ [CHR 0x22])
   \<and> tags (build_record meta
        \<lparr>v_labels = Some [\<lparr>l_description = ''Cat'', l_score = Some (9 / 10)\<rparr>,
                           \<lparr>l_description = ''Animal'', l_score = Some (5 / 10)\<rparr>],
         v_description = Some [], v_error = None\<rparr>)
      = [CHR 0x22] @ ''cat'' @ [CHR 0x22]
   \<and> tags (build_record meta
        \<lparr>v_labels = Some [\<lparr>l_description = ''Cat'', l_score = Some (9 / 10)\<rparr>,
                           \<lparr>l_description = ''Edge'', l_score = Some (6 / 10)\<rparr>,
                           \<lparr>l_description = ''Pet'', l_score = Some (7 / 10)\<rparr>],
         v_description = Some [], v_error = None\<rparr>)
      = [CHR 0x22] @ ''cat, pet'' @ [CHR 0x22]"
proof -
  have lc: "toLowerCase ''Cat'' = ''cat''" "toLowerCase ''Pet'' = ''pet''"
    by code_simp+
  show ?thesis
    by (simp add: tags_build_record lc)
qed

text \<open>
  C4. \<open>getCategoryFromPath\<close> is a total function of the path. Both separators count:
  for a path that ends in a segment \<open>slug\<close>, a separator and a last segment \<open>leaf\<close>
  (after nothing, or after a directory part that ends in a separator), the result is the
  lowercased \<open>slug\<close> when \<open>slug\<close> matches \<open>^[\w-]+$\<close> and the empty string
  otherwise; a path of one segment, the empty path and an absent path give the empty
  string.
\<close>

theorem getCategoryFromPath_second_to_last_segment:
  "(CHR ''/'' \<notin> set slug \<and> CHR 0x5C \<notin> set slug \<and> CHR ''/'' \<notin> set leaf \<and> CHR 0x5C \<notin> set leaf
      \<and> (sep = CHR ''/'' \<or> sep = CHR 0x5C)
      \<and> (dir = [] \<or> last dir = CHR ''/'' \<or> last dir = CHR 0x5C)
    \<longrightarrow> getCategoryFromPath (Some (dir @ slug @ sep # leaf))
          = (if test_slug slug then toLowerCase slug else []))
   \<and> (CHR ''/'' \<notin> set leaf \<and> CHR 0x5C \<notin> set leaf \<longrightarrow> getCategoryFromPath (Some leaf) = [])
   \<and> getCategoryFromPath None = []
   \<and> getCategoryFromPath (Some ''photos/animals/cat.jpg'') = ''animals''
   \<and> getCategoryFromPath (Some ''cat.jpg'') = []
   \<and> getCategoryFromPath (Some ''a/b!c/cat.jpg'') = []
   \<and> getCategoryFromPath (Some []) = []"
proof -
  have a: "getCategoryFromPath (Some (dir @ slug @ sep # leaf))
          = (if test_slug slug then toLowerCase slug else [])"
    if "CHR ''/'' \<notin> set slug" "CHR 0x5C \<notin> set slug" "CHR ''/'' \<notin> set leaf" "CHR 0x5C \<notin> set leaf"
      "sep = CHR ''/'' \<or> sep = CHR 0x5C" "dir = [] \<or> last dir = CHR ''/'' \<or> last dir = CHR 0x5C"
    using parts_of_path[OF that] getCategoryFromPath_parts by blast
  have b: "getCategoryFromPath (Some leaf) = []"
    if "CHR ''/'' \<notin> set leaf" "CHR 0x5C \<notin> set leaf"
    using that by (simp add: getCategoryFromPath_def replace_backslashes_id split_on_no_sep)
  have c: "getCategoryFromPath None = []"
    by (simp add: getCategoryFromPath_def)
  have d: "getCategoryFromPath (Some ''photos/animals/cat.jpg'') = ''animals''"
    by code_simp
  have e: "getCategoryFromPath (Some ''cat.jpg'') = []"
    by code_simp
  have f: "getCategoryFromPath (Some ''a/b!c/cat.jpg'') = []"
    by code_simp
  have g: "getCategoryFromPath (Some []) = []"
    by (simp add: getCategoryFromPath_def)
  show ?thesis
    using a b c d e f g by blast
qed

theorem getCategoryFromPath_second_to_last_segment_witness:
  "CHR ''/'' \<notin> set ''Animals'' \<and> CHR 0x5C \<notin> set ''Animals''
   \<and> CHR ''/'' \<notin> set ''cat.jpg'' \<and> CHR 0x5C \<notin> set ''cat.jpg''
   \<and> last (''C:'' @ [CHR 0x5C]) = CHR 0x5C
   \<and> getCategoryFromPath (Some ((''C:'' @ [CHR 0x5C]) @ ''Animals'' @ CHR 0x5C # ''cat.jpg''))
       = ''animals''
   \<and> getCategoryFromPath (Some ''cat.jpg'') = []"
proof -
  have t: "test_slug ''Animals''"
    by code_simp
  have l: "toLowerCase ''Animals'' = ''animals''"
    by code_simp
  have h: "CHR ''/'' \<notin> set ''Animals'' \<and> CHR 0x5C \<notin> set ''Animals''
      \<and> CHR ''/'' \<notin> set ''cat.jpg'' \<and> CHR 0x5C \<notin> set ''cat.jpg''
      \<and> last (''C:'' @ [CHR 0x5C]) = CHR 0x5C"
    by simp
  show ?thesis
    using h t l
      getCategoryFromPath_second_to_last_segment
        [where slug = "''Animals''" and leaf = "''cat.jpg''" and sep = "CHR 0x5C"
           and dir = "''C:'' @ [CHR 0x5C]"]
    by simp
qed

text \<open>
  C8. \<open>prepareFiles\<close> keeps exactly the files whose size in bytes is at most
  \<open>MAX_FILE_SIZE_MB * 1024 * 1024\<close>, in their input order; the number of files it drops is
  the number of files strictly over the limit, and it warns once when there is one. A
  file of exactly 5 MB passes a limit of 5, a file one byte larger does not.
\<close>

theorem prepareFiles_keeps_files_within_limit:
  "images (prepareFiles files s)
     = filter (\<lambda>f. of_nat (f_size f) \<le> MAX_FILE_SIZE_MB s * 1024 * 1024) files
   \<and> subseq (images (prepareFiles files s)) files
   \<and> length files - length (images (prepareFiles files s))
       = length (filter (\<lambda>f. MAX_FILE_SIZE_MB s * 1024 * 1024 < of_nat (f_size f)) files)
   \<and> alerts_of (trace (prepareFiles files s))
       = alerts_of (trace s)
         @ (if filter (\<lambda>f. MAX_FILE_SIZE_MB s * 1024 * 1024 < of_nat (f_size f)) files = [] then []
            else [OversizedWarning (MAX_FILE_SIZE_MB s)])
   \<and> map f_size (images (prepareFiles
         [(demo_file ''a.png'')\<lparr>f_size := 5 * 1024 * 1024\<rparr>,
          (demo_file ''b.png'')\<lparr>f_size := 1 * 1024 * 1024\<rparr>,
          (demo_file ''c.png'')\<lparr>f_size := 10 * 1024 * 1024\<rparr>,
          (demo_file ''d.png'')\<lparr>f_size := 5 * 1024 * 1024 + 1\<rparr>] new_ImageProcessor))
       = [5 * 1024 * 1024, 1 * 1024 * 1024]"
proof -
  let ?lim = "MAX_FILE_SIZE_MB s * 1024 * 1024"
  have a: "images (prepareFiles files s) = filter (\<lambda>f. of_nat (f_size f) \<le> ?lim) files"
    by (rule images_prepareFiles)
  have b: "subseq (images (prepareFiles files s)) files"
    by (simp add: a)
  have "length (filter (\<lambda>f. of_nat (f_size f) \<le> ?lim) files)
        + length (filter (\<lambda>f. \<not> of_nat (f_size f) \<le> ?lim) files) = length files"
    by (rule sum_length_filter_compl)
  then have c: "length files - length (images (prepareFiles files s))
       = length (filter (\<lambda>f. ?lim < of_nat (f_size f)) files)"
    by (simp add: a not_le)
  have al: "alerts_of (xs @ ys) = alerts_of xs @ alerts_of ys" for xs ys
    by (induction xs rule: alerts_of.induct) simp_all
  have d: "alerts_of (trace (prepareFiles files s))
       = alerts_of (trace s)
         @ (if filter (\<lambda>f. ?lim < of_nat (f_size f)) files = [] then []
            else [OversizedWarning (MAX_FILE_SIZE_MB s)])"
    by (simp add: prepareFiles_def Let_def emit_def alert_def showPreview_def over_limit_iff al
        mult.commute)
  have e: "map f_size (images (prepareFiles
         [(demo_file ''a.png'')\<lparr>f_size := 5 * 1024 * 1024\<rparr>,
          (demo_file ''b.png'')\<lparr>f_size := 1 * 1024 * 1024\<rparr>,
          (demo_file ''c.png'')\<lparr>f_size := 10 * 1024 * 1024\<rparr>,
          (demo_file ''d.png'')\<lparr>f_size := 5 * 1024 * 1024 + 1\<rparr>] new_ImageProcessor))
       = [5 * 1024 * 1024, 1 * 1024 * 1024]"
    by (simp add: images_prepareFiles new_ImageProcessor_def)
  show ?thesis
    using a b c d e by blast
qed

text \<open>
  C9. For a vision result without error, the description of the record is the first 100
  characters of the vision description: a longer description becomes exactly 100
  characters, a prefix of the original with nothing added; an absent or empty description
  gives the empty string.
\<close>

theorem description_is_first_100_characters:
  "description (build_record meta v)
     = (case v_description v of None \<Rightarrow> [] | Some d \<Rightarrow> take 100 d)
   \<and> length (description (build_record meta v)) \<le> 100
   \<and> (v_description v = Some d \<and> 100 < length d
        \<longrightarrow> length (description (build_record meta v)) = 100
            \<and> prefix (description (build_record meta v)) d)
   \<and> (v_description v = Some d \<and> length d \<le> 100 \<longrightarrow> description (build_record meta v) = d)
   \<and> (v_description v = None \<or> v_description v = Some []
        \<longrightarrow> description (build_record meta v) = [])"
proof -
  have a: "description (build_record meta v)
     = (case v_description v of None \<Rightarrow> [] | Some d \<Rightarrow> take 100 d)"
    by (rule description_build_record)
  have b: "length (description (build_record meta v)) \<le> 100"
    by (simp add: a split: option.splits)
  have c: "length (description (build_record meta v)) = 100
            \<and> prefix (description (build_record meta v)) d"
    if "v_description v = Some d" "100 < length d"
    using that by (simp add: a take_is_prefix)
  have d: "description (build_record meta v) = d"
    if "v_description v = Some d" "length d \<le> 100"
    using that by (simp add: a)
  have e: "description (build_record meta v) = []"
    if "v_description v = None \<or> v_description v = Some []"
    using that by (auto simp: a)
  show ?thesis
    using a b c d e by blast
qed

theorem description_is_first_100_characters_witness:
  "v_description \<lparr>v_labels = None, v_description = Some (replicate 150 (CHR ''x'')), v_error = None\<rparr>
     = Some (replicate 150 (CHR ''x''))
   \<and> 100 < length (replicate 150 (CHR ''x''))
   \<and> description (build_record demo_meta
        \<lparr>v_labels = None, v_description = Some (replicate 150 (CHR ''x'')), v_error = None\<rparr>)
      = replicate 100 (CHR ''x'')
   \<and> description (build_record demo_meta
        \<lparr>v_labels = None, v_description = None, v_error = None\<rparr>) = []"
  using description_is_first_100_characters
          [of demo_meta "\<lparr>v_labels = None, v_description = Some (replicate 150 (CHR ''x'')), v_error = None\<rparr>"
              "replicate 150 (CHR ''x'')"]
        description_is_first_100_characters
          [of demo_meta "\<lparr>v_labels = None, v_description = None, v_error = None\<rparr>" "[]"]
  by simp

text \<open>
  C2. \<open>analyzeVision\<close> always returns a vision result and never throws: whatever the
  \<open>try\<close> block throws is caught. Every failure of the call (the file cannot be read, the
  transport fails, the body is not JSON, the status is not ok, the body carries an error)
  gives the shape \<open>{labels: [], description: "", error: msg}\<close> with a non-empty
  message; a call without failure gives a result without error.
\<close>

theorem analyzeVision_never_throws:
  "(\<exists>v. fst (analyzeVision env file apiKey s) = Inr v)
   \<and> (call_fails env file apiKey
        \<longrightarrow> (\<exists>v. fst (analyzeVision env file apiKey s) = Inr v \<and> is_error_result v))
   \<and> (\<not> call_fails env file apiKey
        \<longrightarrow> (\<exists>v. fst (analyzeVision env file apiKey s) = Inr v \<and> v_error v = None))"
proof -
  have a: "\<exists>v. fst (analyzeVision env file apiKey s) = Inr v"
    by (rule analyzeVision_fulfilled)
  have caught: "\<exists>v. fst (analyzeVision env file apiKey s) = Inr v \<and> is_error_result v"
    if "fst (analyzeVision_try env file apiKey s) = Inl e" for e
    using analyzeVision_caught[OF that]
    by (simp add: is_error_result_def catch_message_not_Nil)
  have b: "\<exists>v. fst (analyzeVision env file apiKey s) = Inr v \<and> is_error_result v"
    if fails: "call_fails env file apiKey"
  proof (cases "readAsDataURL env file")
    case None
    then show ?thesis
      using caught analyzeVision_try_read_failed by blast
  next
    case (Some result)
    show ?thesis
    proof (cases "fetch env (vision_url env apiKey)
                    (vision_request (base64_part result))")
      case (Inl e)
      then show ?thesis
        using caught analyzeVision_try_fetch_failed[OF Some] by blast
    next
      case (Inr response)
      have tr: "fst (analyzeVision_try env file apiKey s) = classify_response response"
        by (rule analyzeVision_try_response[OF Some Inr])
      have cond: "(case json response of
                     Inr (Some respJson) \<Rightarrow> \<not> ok response \<or> r_error respJson \<noteq> None
                   | _ \<Rightarrow> True)"
        using fails by (simp add: call_fails_def Some Inr split: sum.splits option.splits)
      show ?thesis
      proof (cases "classify_response response")
        case (Inl e)
        then show ?thesis
          using caught tr by simp
      next
        case (Inr v)
        then show ?thesis
          using classify_response_failure[OF Inr cond] analyzeVision_passed tr by auto
      qed
    qed
  qed
  have c: "\<exists>v. fst (analyzeVision env file apiKey s) = Inr v \<and> v_error v = None"
    if fine: "\<not> call_fails env file apiKey"
  proof (cases "readAsDataURL env file")
    case None
    then show ?thesis
      using fine by (simp add: call_fails_def)
  next
    case (Some result)
    show ?thesis
    proof (cases "fetch env (vision_url env apiKey)
                    (vision_request (base64_part result))")
      case (Inl e)
      then show ?thesis
        using fine by (simp add: call_fails_def Some)
    next
      case (Inr response)
      have "\<exists>respJson. json response = Inr (Some respJson) \<and> ok response \<and> r_error respJson = None"
        using fine by (simp add: call_fails_def Some Inr split: sum.splits option.splits)
      then obtain v where "classify_response response = Inr v" "v_error v = None"
        using classify_response_success by blast
      then show ?thesis
        using analyzeVision_try_response[OF Some Inr] analyzeVision_passed by auto
    qed
  qed
  show ?thesis
    using a b c by blast
qed

theorem analyzeVision_never_throws_witness:
  "call_fails demo_env (demo_file ''gateway.png'') ''k''
   \<and> (\<exists>v. fst (analyzeVision demo_env (demo_file ''gateway.png'') ''k'' new_ImageProcessor) = Inr v
          \<and> is_error_result v)
   \<and> \<not> call_fails demo_env (demo_file ''a.png'') ''k''
   \<and> (\<exists>v. fst (analyzeVision demo_env (demo_file ''a.png'') ''k'' new_ImageProcessor) = Inr v
          \<and> v_error v = None)"
  using analyzeVision_never_throws
          [of demo_env "demo_file ''gateway.png''" "''k''" new_ImageProcessor]
        analyzeVision_never_throws
          [of demo_env "demo_file ''a.png''" "''k''" new_ImageProcessor]
        demo_call_fails_gateway demo_call_fails_a
  by blast

text \<open>
  C10, as stated: whenever the HTTP response is not ok, the error starts with \<open>API: \<close>.
  It fails for a response that is not ok and whose body is not JSON: \<open>response.json()\<close>
  is awaited before \<open>response.ok\<close> is read, so the \<open>catch\<close> branch answers, with the
  parser's message and no prefix.
\<close>

theorem non_ok_response_without_api_prefix:
  "readAsDataURL demo_env (demo_file ''gateway.png'')
     = Some ''data:image/png;base64,gateway.png''
   \<and> fetch demo_env (vision_url demo_env ''k'')
         (vision_request (base64_part ''data:image/png;base64,gateway.png''))
       = Inr gateway_response
   \<and> \<not> ok gateway_response
   \<and> fst (analyzeVision demo_env (demo_file ''gateway.png'') ''k'' new_ImageProcessor)
       = Inr \<lparr>v_labels = Some [], v_description = Some [],
              v_error = Some ''Unexpected token < in JSON at position 0''\<rparr>
   \<and> \<not> prefix ''API: '' ''Unexpected token < in JSON at position 0''"
proof -
  have a: "readAsDataURL demo_env (demo_file ''gateway.png'')
     = Some ''data:image/png;base64,gateway.png''"
    by (simp add: demo_env_def)
  have b: "fetch demo_env (vision_url demo_env ''k'')
         (vision_request (base64_part ''data:image/png;base64,gateway.png''))
       = Inr gateway_response"
    by (simp add: client_defs demo_env_def demo_fetch_def)
  have c: "\<not> ok gateway_response"
    by (simp add: gateway_response_def)
  have d: "fst (analyzeVision demo_env (demo_file ''gateway.png'') ''k'' new_ImageProcessor)
       = Inr \<lparr>v_labels = Some [], v_description = Some [],
              v_error = Some ''Unexpected token < in JSON at position 0''\<rparr>"
    by (simp add: analyzeVision_frame demo_vision_gateway)
  have e: "\<not> prefix ''API: '' ''Unexpected token < in JSON at position 0''"
    by simp
  show ?thesis
    using a b c d e by blast
qed

text \<open>
  C10, amended. When the body parses as JSON to a value other than \<open>null\<close>, and the
  response is not ok or the body has a truthy error, the error is \<open>API: \<close> followed by
  the service's message when that is a non-empty string, else the status text when
  non-empty, else \<open>Desconocido\<close>. When the \<open>try\<close> block throws (and it does when the
  body is not JSON, whatever the status), the error is the exception's message, or
  \<open>String(e)\<close> for an empty message, without the prefix.
\<close>

theorem api_error_prefix_after_parsed_body:
  "(readAsDataURL env file = Some result
      \<and> fetch env (vision_url env apiKey) (vision_request (base64_part result)) = Inr response
      \<and> json response = Inr (Some respJson)
      \<and> (\<not> ok response \<or> r_error respJson \<noteq> None)
    \<longrightarrow> fst (analyzeVision env file apiKey s)
          = Inr \<lparr>v_labels = Some [], v_description = Some [],
                 v_error = Some (''API: '' @
                   (let fallback = (if statusText response \<noteq> [] then statusText response
                                    else ''Desconocido'')
                    in case r_error respJson of
                         None \<Rightarrow> fallback
                       | Some err \<Rightarrow>
                           (case message err of
                              None \<Rightarrow> fallback
                            | Some m \<Rightarrow> if m \<noteq> [] then m else fallback)))\<rparr>)
   \<and> (fst (analyzeVision_try env file apiKey s) = Inl e
    \<longrightarrow> fst (analyzeVision env file apiKey s)
          = Inr \<lparr>v_labels = Some [], v_description = Some [],
                 v_error = Some (if exn_message e \<noteq> [] then exn_message e
                                 else exn_to_string e)\<rparr>)
   \<and> (readAsDataURL env file = Some result
      \<and> fetch env (vision_url env apiKey) (vision_request (base64_part result)) = Inr response
      \<and> json response = Inl e
    \<longrightarrow> fst (analyzeVision_try env file apiKey s) = Inl e)"
proof -
  have a: "fst (analyzeVision env file apiKey s)
          = Inr \<lparr>v_labels = Some [], v_description = Some [],
                 v_error = Some (''API: '' @
                   (let fallback = (if statusText response \<noteq> [] then statusText response
                                    else ''Desconocido'')
                    in case r_error respJson of
                         None \<Rightarrow> fallback
                       | Some err \<Rightarrow>
                           (case message err of
                              None \<Rightarrow> fallback
                            | Some m \<Rightarrow> if m \<noteq> [] then m else fallback)))\<rparr>"
    if "readAsDataURL env file = Some result"
      "fetch env (vision_url env apiKey) (vision_request (base64_part result)) = Inr response"
      "json response = Inr (Some respJson)"
      "\<not> ok response \<or> r_error respJson \<noteq> None"
    using analyzeVision_try_response[OF that(1,2)] classify_response_api_error[OF that(3,4)]
      analyzeVision_passed
    by simp
  have b: "fst (analyzeVision env file apiKey s)
          = Inr \<lparr>v_labels = Some [], v_description = Some [],
                 v_error = Some (if exn_message e \<noteq> [] then exn_message e
                                 else exn_to_string e)\<rparr>"
    if "fst (analyzeVision_try env file apiKey s) = Inl e"
    using analyzeVision_caught[OF that] by (simp add: or_string_def)
  have c: "fst (analyzeVision_try env file apiKey s) = Inl e"
    if "readAsDataURL env file = Some result"
      "fetch env (vision_url env apiKey) (vision_request (base64_part result)) = Inr response"
      "json response = Inl e"
    using analyzeVision_try_response[OF that(1,2)] that(3)
    by (simp add: classify_response_def)
  show ?thesis
    using a b c by blast
qed

theorem api_error_prefix_after_parsed_body_witness:
  "readAsDataURL demo_env (demo_file ''quota.png'') = Some ''data:image/png;base64,quota.png''
   \<and> fetch demo_env (vision_url demo_env ''k'')
         (vision_request (base64_part ''data:image/png;base64,quota.png''))
       = Inr quota_response
   \<and> json quota_response = Inr (Some quota_body)
   \<and> \<not> ok quota_response
   \<and> fst (analyzeVision demo_env (demo_file ''quota.png'') ''k'' new_ImageProcessor)
       = Inr \<lparr>v_labels = Some [], v_description = Some [],
              v_error = Some ''API: Quota exceeded''\<rparr>
   \<and> readAsDataURL demo_env (demo_file ''gateway.png'')
       = Some ''data:image/png;base64,gateway.png''
   \<and> fetch demo_env (vision_url demo_env ''k'')
         (vision_request (base64_part ''data:image/png;base64,gateway.png''))
       = Inr gateway_response
   \<and> json gateway_response = Inl (JsError SyntaxError ''Unexpected token < in JSON at position 0'')
   \<and> fst (analyzeVision demo_env (demo_file ''gateway.png'') ''k'' new_ImageProcessor)
       = Inr \<lparr>v_labels = Some [], v_description = Some [],
              v_error = Some ''Unexpected token < in JSON at position 0''\<rparr>"
proof -
  have q1: "readAsDataURL demo_env (demo_file ''quota.png'')
      = Some ''data:image/png;base64,quota.png''"
    by (simp add: demo_env_def)
  have q2: "fetch demo_env (vision_url demo_env ''k'')
         (vision_request (base64_part ''data:image/png;base64,quota.png''))
       = Inr quota_response"
    by (simp add: client_defs demo_env_def demo_fetch_def)
  have q3: "json quota_response = Inr (Some quota_body)" "\<not> ok quota_response"
    by (simp_all add: quota_response_def)
  have g1: "readAsDataURL demo_env (demo_file ''gateway.png'')
      = Some ''data:image/png;base64,gateway.png''"
    by (simp add: demo_env_def)
  have g2: "fetch demo_env (vision_url demo_env ''k'')
         (vision_request (base64_part ''data:image/png;base64,gateway.png''))
       = Inr gateway_response"
    by (simp add: client_defs demo_env_def demo_fetch_def)
  have g3: "json gateway_response
      = Inl (JsError SyntaxError ''Unexpected token < in JSON at position 0'')"
    by (simp add: gateway_response_def)
  note q = api_error_prefix_after_parsed_body
      [of demo_env "demo_file ''quota.png''" "''data:image/png;base64,quota.png''" "''k''"
          quota_response quota_body new_ImageProcessor, THEN conjunct1]
  note g = api_error_prefix_after_parsed_body
      [of demo_env "demo_file ''gateway.png''" "''data:image/png;base64,gateway.png''" "''k''"
          gateway_response _ new_ImageProcessor
          "JsError SyntaxError ''Unexpected token < in JSON at position 0''"]
  have qr: "fst (analyzeVision demo_env (demo_file ''quota.png'') ''k'' new_ImageProcessor)
       = Inr \<lparr>v_labels = Some [], v_description = Some [],
              v_error = Some ''API: Quota exceeded''\<rparr>"
    using q q1 q2 q3 by (simp add: quota_response_def quota_body_def)
  have gr: "fst (analyzeVision demo_env (demo_file ''gateway.png'') ''k'' new_ImageProcessor)
       = Inr \<lparr>v_labels = Some [], v_description = Some [],
              v_error = Some ''Unexpected token < in JSON at position 0''\<rparr>"
    using g g1 g2 g3 by simp
  show ?thesis
    using q1 q2 q3 g1 g2 g3 qr gr by blast
qed

text \<open>
  C5. Every run completes, and the progress percentages it emits are
  \<open>((i + 1) / n) * 100\<close>, computed in doubles as line 124 computes them, for
  \<open>i = 0, \<dots>, n - 1\<close>, followed by a final 100, so the sequence ends at 100. For
  \<open>n \<ge> 1\<close> the percentage of the last image is exactly 100. The percentages of the loop
  are strictly increasing, rounding included; \<open>n\<close> is the length of an array, which is
  below \<open>2\<^sup>3\<^sup>2\<close>.
\<close>

theorem progress_rises_to_100:
  "fst (processWithVision env apiKey s) = None
   \<and> progress_of (run_effects env apiKey s)
       = map (\<lambda>i. js_mul (js_div (of_nat (i + 1)) (of_nat (length (images s)))) 100)
           [0..<length (images s)]
         @ [100]
   \<and> last (progress_of (run_effects env apiKey s)) = 100
   \<and> (images s \<noteq> []
        \<longrightarrow> last (map (\<lambda>i. js_mul (js_div (of_nat (i + 1)) (of_nat (length (images s)))) 100)
                    [0..<length (images s)]) = 100)
   \<and> (length (images s) < 2 ^ 32
        \<longrightarrow> sorted_wrt (<)
              (map (\<lambda>i. js_mul (js_div (of_nat (i + 1)) (of_nat (length (images s)))) 100)
                 [0..<length (images s)]))"
proof -
  let ?n = "length (images s)"
  have p: "(\<lambda>i. js_mul (js_div (of_nat (i + 1)) (of_nat ?n)) 100) = (\<lambda>i. progress_percent i ?n)"
    by (simp add: progress_percent_def)
  have a: "fst (processWithVision env apiKey s) = None"
    by (rule processWithVision_completes)
  have b: "progress_of (run_effects env apiKey s)
         = map (\<lambda>i. progress_percent i ?n) [0..<?n] @ [100]"
    using progress_of_loop_effects[of env apiKey ?n 0 "images s"]
    by (simp add: run_effects_eq progress_of_append)
  have c: "last (progress_of (run_effects env apiKey s)) = 100"
    by (simp add: b)
  have d: "last (map (\<lambda>i. progress_percent i ?n) [0..<?n]) = 100" if "images s \<noteq> []"
  proof -
    have n: "0 < ?n"
      using that by simp
    then have "[0..<?n] = [0..<?n - 1] @ [?n - 1]"
      by (metis Suc_pred' upt_Suc_append zero_le)
    then have "last (map (\<lambda>i. progress_percent i ?n) [0..<?n]) = progress_percent (?n - 1) ?n"
      by (metis (no_types, lifting) last_map last_snoc map_is_Nil_conv snoc_eq_iff_butlast)
    then show ?thesis
      using progress_percent_last[OF n] by simp
  qed
  have e: "sorted_wrt (<) (map (\<lambda>i. progress_percent i ?n) [0..<?n])" if "?n < 2 ^ 32"
    by (rule progress_percent_sorted[OF that])
  show ?thesis
    unfolding p using a b c d e by blast
qed

theorem progress_rises_to_100_witness:
  "images demo_batch \<noteq> []
   \<and> length (images demo_batch) < 2 ^ 32
   \<and> progress_of (run_effects demo_env ''k'' demo_batch)
       = [2345624805922133 / 70368744177664, 2345624805922133 / 35184372088832, 100, 100]
   \<and> sorted_wrt (<)
        [2345624805922133 / 70368744177664, 2345624805922133 / 35184372088832, 100 :: rat]
   \<and> last (progress_of (run_effects demo_env ''k'' demo_batch)) = 100"
proof -
  have ne: "images demo_batch \<noteq> []" and len: "length (images demo_batch) < 2 ^ 32"
    by (simp_all add: images_demo_batch)
  have three: "length (images demo_batch) = 3"
    by (simp add: images_demo_batch)
  have m: "map (\<lambda>i. js_mul (js_div (of_nat (i + 1)) (of_nat (length (images demo_batch)))) 100)
             [0..<length (images demo_batch)]
      = [2345624805922133 / 70368744177664, 2345624805922133 / 35184372088832, 100]"
    using progress_percent_thirds
    by (simp add: three upt_rec progress_percent_def)
  note t = progress_rises_to_100[of demo_env "''k''" demo_batch]
  have "progress_of (run_effects demo_env ''k'' demo_batch)
      = [2345624805922133 / 70368744177664, 2345624805922133 / 35184372088832, 100, 100]"
    using t by (simp only: m) simp
  moreover have "sorted_wrt (<)
        [2345624805922133 / 70368744177664, 2345624805922133 / 35184372088832, 100 :: rat]"
    using t len by (simp only: m)
  moreover have "last (progress_of (run_effects demo_env ''k'' demo_batch)) = 100"
    using t by blast
  ultimately show ?thesis
    using ne len by blast
qed

text \<open>
  C1, as stated: in a batch of three images where only the second errors, exactly one
  error notification is raised. It fails when the second image cannot be read:
  \<open>imageToBase64\<close> raises an alert of its own (line 199) before it rejects, and
  \<open>processWithVision\<close> raises the alert of line 131 for the same item, two alerts in all.
\<close>

theorem read_failure_raises_two_alerts:
  "images demo_batch_unreadable
     = [demo_file ''a.png'', demo_file ''unreadable.png'', demo_file ''c.png'']
   \<and> \<not> has_error (vision_of demo_env ''k'' (demo_file ''a.png''))
   \<and> has_error (vision_of demo_env ''k'' (demo_file ''unreadable.png''))
   \<and> \<not> has_error (vision_of demo_env ''k'' (demo_file ''c.png''))
   \<and> processedData (snd (processWithVision demo_env ''k'' demo_batch_unreadable))
       = [demo_record ''a.png'', demo_record ''c.png'']
   \<and> alerts_of (run_effects demo_env ''k'' demo_batch_unreadable)
       = [ReadError ''unreadable.png'', ProcessingError ''unreadable.png'' ''Lectura fallida'']
   \<and> length (alerts_of (run_effects demo_env ''k'' demo_batch_unreadable)) \<noteq> 1"
proof -
  have p: "processedData demo_batch_unreadable = []"
    by (simp add: demo_batch_unreadable_def processedData_prepareFiles)
  have r: "processedData (snd (processWithVision demo_env ''k'' demo_batch_unreadable))
       = [demo_record ''a.png'', demo_record ''c.png'']"
    by (simp add: processedData_processWithVision images_demo_batch_unreadable p demo_has_error
        demo_records)
  have a: "alerts_of (run_effects demo_env ''k'' demo_batch_unreadable)
       = [ReadError ''unreadable.png'', ProcessingError ''unreadable.png'' ''Lectura fallida'']"
    by (simp add: run_effects_demo_batch_unreadable)
  show ?thesis
    using images_demo_batch_unreadable demo_has_error r a by simp
qed

text \<open>
  C1, amended. A run never aborts. An item whose vision result carries an error (the test
  of line 130) adds no record, gets the status \<open>error\<close> and one alert from
  \<open>processWithVision\<close>, and the loop goes on to the next item; every other item adds its
  record and gets the status \<open>completed\<close>. For three images where only the second errors,
  on a collection that was empty, the collection holds the records of images 1 and 3 in
  that order, and the alerts of the run are the one of \<open>processWithVision\<close>, preceded by
  the one of \<open>imageToBase64\<close> when the error is a file that cannot be read.
\<close>

theorem failed_item_is_skipped:
  "fst (processWithVision env apiKey s) = None
   \<and> processedData (snd (processWithVision env apiKey s))
       = processedData s
         @ map (\<lambda>f. build_record (extractMetadata env f) (vision_of env apiKey f))
             (filter (\<lambda>f. \<not> has_error (vision_of env apiKey f)) (images s))
   \<and> statuses_of (run_effects env apiKey s)
       = map (\<lambda>(i, f). (i, if has_error (vision_of env apiKey f) then ''error'' else ''completed''))
           (enumerate 0 (images s))
   \<and> processing_errors_of (run_effects env apiKey s)
       = map (\<lambda>f. (f_name f, error_text (vision_of env apiKey f)))
           (filter (\<lambda>f. has_error (vision_of env apiKey f)) (images s))
   \<and> length (alerts_of (run_effects env apiKey s))
       = length (filter (\<lambda>f. has_error (vision_of env apiKey f)) (images s))
         + length (filter (\<lambda>f. readAsDataURL env f = None) (images s))
   \<and> (images s = [f1, f2, f3] \<and> processedData s = []
       \<and> \<not> has_error (vision_of env apiKey f1)
       \<and> has_error (vision_of env apiKey f2)
       \<and> \<not> has_error (vision_of env apiKey f3)
      \<longrightarrow> processedData (snd (processWithVision env apiKey s))
            = [build_record (extractMetadata env f1) (vision_of env apiKey f1),
               build_record (extractMetadata env f3) (vision_of env apiKey f3)]
          \<and> statuses_of (run_effects env apiKey s)
            = [(0, ''completed''), (1, ''error''), (2, ''completed'')]
          \<and> processing_errors_of (run_effects env apiKey s)
            = [(f_name f2, error_text (vision_of env apiKey f2))]
          \<and> alerts_of (run_effects env apiKey s)
            = (if readAsDataURL env f2 = None then [ReadError (f_name f2)] else [])
              @ [ProcessingError (f_name f2) (error_text (vision_of env apiKey f2))])"
proof -
  have a: "fst (processWithVision env apiKey s) = None"
    by (rule processWithVision_completes)
  have b: "processedData (snd (processWithVision env apiKey s))
       = processedData s
         @ map (\<lambda>f. build_record (extractMetadata env f) (vision_of env apiKey f))
             (filter (\<lambda>f. \<not> has_error (vision_of env apiKey f)) (images s))"
    by (rule processedData_processWithVision)
  have c: "statuses_of (run_effects env apiKey s)
       = map (\<lambda>(i, f). (i, if has_error (vision_of env apiKey f) then ''error'' else ''completed''))
           (enumerate 0 (images s))"
    by (simp add: run_effects_eq statuses_of_append statuses_of_loop_effects)
  have d: "processing_errors_of (run_effects env apiKey s)
       = map (\<lambda>f. (f_name f, error_text (vision_of env apiKey f)))
           (filter (\<lambda>f. has_error (vision_of env apiKey f)) (images s))"
    by (simp add: run_effects_eq processing_errors_of_append processing_errors_of_loop_effects)
  have e: "length (alerts_of (run_effects env apiKey s))
       = length (filter (\<lambda>f. has_error (vision_of env apiKey f)) (images s))
         + length (filter (\<lambda>f. readAsDataURL env f = None) (images s))"
    by (simp add: run_effects_eq alerts_of_append length_alerts_of_loop_effects)
  have f: "processedData (snd (processWithVision env apiKey s))
            = [build_record (extractMetadata env f1) (vision_of env apiKey f1),
               build_record (extractMetadata env f3) (vision_of env apiKey f3)]
          \<and> statuses_of (run_effects env apiKey s)
            = [(0, ''completed''), (1, ''error''), (2, ''completed'')]
          \<and> processing_errors_of (run_effects env apiKey s)
            = [(f_name f2, error_text (vision_of env apiKey f2))]
          \<and> alerts_of (run_effects env apiKey s)
            = (if readAsDataURL env f2 = None then [ReadError (f_name f2)] else [])
              @ [ProcessingError (f_name f2) (error_text (vision_of env apiKey f2))]"
    if h: "images s = [f1, f2, f3]" "processedData s = []"
      "\<not> has_error (vision_of env apiKey f1)"
      "has_error (vision_of env apiKey f2)"
      "\<not> has_error (vision_of env apiKey f3)"
  proof -
    have f1: "processedData (snd (processWithVision env apiKey s))
            = [build_record (extractMetadata env f1) (vision_of env apiKey f1),
               build_record (extractMetadata env f3) (vision_of env apiKey f3)]"
      using h by (simp add: b)
    have f2: "statuses_of (run_effects env apiKey s)
            = [(0, ''completed''), (1, ''error''), (2, ''completed'')]"
      using h by (simp add: c)
    have f3: "processing_errors_of (run_effects env apiKey s)
            = [(f_name f2, error_text (vision_of env apiKey f2))]"
      using h by (simp add: d)
    have f4: "alerts_of (run_effects env apiKey s)
            = (if readAsDataURL env f2 = None then [ReadError (f_name f2)] else [])
              @ [ProcessingError (f_name f2) (error_text (vision_of env apiKey f2))]"
      using h
      by (simp add: run_effects_eq alerts_of_append alerts_of_completed_item
          alerts_of_failed_item)
    show ?thesis
      using f1 f2 f3 f4 by blast
  qed
  show ?thesis
    using a b c d e f by blast
qed

theorem failed_item_is_skipped_witness:
  "images demo_batch = [demo_file ''a.png'', demo_file ''offline.png'', demo_file ''c.png'']
   \<and> processedData demo_batch = []
   \<and> \<not> has_error (vision_of demo_env ''k'' (demo_file ''a.png''))
   \<and> has_error (vision_of demo_env ''k'' (demo_file ''offline.png''))
   \<and> \<not> has_error (vision_of demo_env ''k'' (demo_file ''c.png''))
   \<and> fst (processWithVision demo_env ''k'' demo_batch) = None
   \<and> processedData (snd (processWithVision demo_env ''k'' demo_batch))
       = [demo_record ''a.png'', demo_record ''c.png'']
   \<and> statuses_of (run_effects demo_env ''k'' demo_batch)
       = [(0, ''completed''), (1, ''error''), (2, ''completed'')]
   \<and> alerts_of (run_effects demo_env ''k'' demo_batch)
       = [ProcessingError ''offline.png'' ''Failed to fetch'']"
proof -
  note t = failed_item_is_skipped
      [of demo_env "''k''" demo_batch "demo_file ''a.png''" "demo_file ''offline.png''"
          "demo_file ''c.png''"]
  have r: "readAsDataURL demo_env (demo_file ''offline.png'') \<noteq> None"
    by (simp add: demo_env_def)
  show ?thesis
    using t images_demo_batch processedData_demo_batch demo_has_error demo_records
      demo_error_text r
    by simp
qed

text \<open>
  C6, as stated: two calls of \<open>processWithVision\<close> on the same images leave the same
  records in the collection. It fails: \<open>processWithVision\<close> does not clear
  \<open>processedData\<close> (only \<open>prepareFiles\<close> does), so a second call on the same images
  appends the same records again.
\<close>

theorem second_run_duplicates_records:
  "images (snd (processWithVision demo_env ''k'' demo_batch)) = images demo_batch
   \<and> processedData (snd (processWithVision demo_env ''k'' demo_batch))
       = [demo_record ''a.png'', demo_record ''c.png'']
   \<and> processedData (snd (processWithVision demo_env ''k''
                           (snd (processWithVision demo_env ''k'' demo_batch))))
       = [demo_record ''a.png'', demo_record ''c.png'', demo_record ''a.png'', demo_record ''c.png'']
   \<and> processedData (snd (processWithVision demo_env ''k''
                           (snd (processWithVision demo_env ''k'' demo_batch))))
       \<noteq> processedData (snd (processWithVision demo_env ''k'' demo_batch))"
  by (simp add: processedData_processWithVision images_processWithVision images_demo_batch
      processedData_demo_batch demo_has_error demo_records)

text \<open>
  C6, amended. With a fixed environment, two runs over the same images, each started on
  an empty collection (as \<open>prepareFiles\<close> leaves it), produce the same ordered records,
  whatever else the two processors hold. Every run appends the records of its images, in
  order, to what the collection held; a second run without a reset in between appends
  them once more.
\<close>

theorem runs_append_the_same_records:
  "(images s1 = images s2 \<and> processedData s1 = [] \<and> processedData s2 = []
      \<longrightarrow> processedData (snd (processWithVision env apiKey s1))
          = processedData (snd (processWithVision env apiKey s2)))
   \<and> (MAX_FILE_SIZE_MB s1 = MAX_FILE_SIZE_MB s2
      \<longrightarrow> processedData (snd (processWithVision env apiKey (prepareFiles files s1)))
          = processedData (snd (processWithVision env apiKey (prepareFiles files s2))))
   \<and> processedData (snd (processWithVision env apiKey s))
       = processedData s
         @ map (\<lambda>f. build_record (extractMetadata env f) (vision_of env apiKey f))
             (filter (\<lambda>f. \<not> has_error (vision_of env apiKey f)) (images s))
   \<and> processedData (snd (processWithVision env apiKey (snd (processWithVision env apiKey s))))
       = processedData (snd (processWithVision env apiKey s))
         @ map (\<lambda>f. build_record (extractMetadata env f) (vision_of env apiKey f))
             (filter (\<lambda>f. \<not> has_error (vision_of env apiKey f)) (images s))"
  by (simp add: processedData_processWithVision images_processWithVision images_prepareFiles
      processedData_prepareFiles)

theorem runs_append_the_same_records_witness:
  "images demo_batch
     = images (prepareFiles [demo_file ''a.png'', demo_file ''offline.png'', demo_file ''c.png'']
                (snd (processWithVision demo_env ''k'' demo_batch)))
   \<and> processedData demo_batch = []
   \<and> processedData (prepareFiles [demo_file ''a.png'', demo_file ''offline.png'', demo_file ''c.png'']
                      (snd (processWithVision demo_env ''k'' demo_batch))) = []
   \<and> processedData (snd (processWithVision demo_env ''k'' demo_batch))
       = processedData (snd (processWithVision demo_env ''k''
           (prepareFiles [demo_file ''a.png'', demo_file ''offline.png'', demo_file ''c.png'']
              (snd (processWithVision demo_env ''k'' demo_batch)))))"
proof -
  let ?s2 = "prepareFiles [demo_file ''a.png'', demo_file ''offline.png'', demo_file ''c.png'']
                (snd (processWithVision demo_env ''k'' demo_batch))"
  have m: "MAX_FILE_SIZE_MB (snd (processWithVision demo_env ''k'' demo_batch)) = 5"
    by (simp add: processWithVision_frame demo_batch_def prepareFiles_def new_ImageProcessor_def
        Let_def emit_def alert_def showPreview_def)
  have i: "images demo_batch = images ?s2"
    by (simp add: images_demo_batch images_prepareFiles m)
  have p: "processedData demo_batch = []" "processedData ?s2 = []"
    by (simp_all add: processedData_demo_batch processedData_prepareFiles)
  show ?thesis
    using runs_append_the_same_records[of demo_batch ?s2 demo_env "''k''", THEN conjunct1] i p
    by blast
qed

text \<open>
  C7, as stated: a delay of 200 ms follows every item, whatever its outcome. It fails:
  the branch of an error ends with \<open>continue\<close> (line 133) and the delay is the last
  statement of the loop body (line 147), so an errored item is followed at once by the
  next item. In a batch of three where the second errors there are two delays.
\<close>

theorem errored_item_is_not_followed_by_delay:
  "length (images demo_batch) = 3
   \<and> delays_of (run_effects demo_env ''k'' demo_batch) = [200, 200]
   \<and> run_effects demo_env ''k'' demo_batch =
     [ShowProgress,
      UpdateProgress (2345624805922133 / 70368744177664) ''Procesando a.png'',
      AppendRow (demo_record ''a.png''),
      UpdateItemStatus 0 ''completed'',
      Delay 200,
      UpdateProgress (2345624805922133 / 35184372088832) ''Procesando offline.png'',
      ConsoleError ''Error al llamar a Vision API:'' (JsError TypeError ''Failed to fetch''),
      Alert (ProcessingError ''offline.png'' ''Failed to fetch''),
      UpdateItemStatus 1 ''error'',
      UpdateProgress 100 ''Procesando c.png'',
      AppendRow (demo_record ''c.png''),
      UpdateItemStatus 2 ''completed'',
      Delay 200,
      UpdateProgress 100 ''Procesamiento completado'',
      ShowResults,
      HideProgressAfter 800]"
  by (simp add: run_effects_demo_batch images_demo_batch)

text \<open>
  C7, amended. A delay of 200 ms follows every item that completes, as the last effect
  of the item; an item that errors ends with its status change and has no delay. The
  delays of a run are one per completed item.
\<close>

theorem delay_follows_completed_items_only:
  "delays_of (run_effects env apiKey s)
     = map (\<lambda>f. 200) (filter (\<lambda>f. \<not> has_error (vision_of env apiKey f)) (images s))
   \<and> (has_error (vision_of env apiKey file)
        \<longrightarrow> delays_of (drop (length (trace s)) (trace (snd (process_item env apiKey i file s)))) = []
            \<and> last (trace (snd (process_item env apiKey i file s))) = UpdateItemStatus i ''error'')
   \<and> (\<not> has_error (vision_of env apiKey file)
        \<longrightarrow> delays_of (drop (length (trace s)) (trace (snd (process_item env apiKey i file s)))) = [200]
            \<and> last (trace (snd (process_item env apiKey i file s))) = Delay 200)"
proof -
  have a: "delays_of (run_effects env apiKey s)
     = map (\<lambda>f. 200) (filter (\<lambda>f. \<not> has_error (vision_of env apiKey f)) (images s))"
    by (simp add: run_effects_eq delays_of_append delays_of_loop_effects)
  have b: "delays_of (drop (length (trace s)) (trace (snd (process_item env apiKey i file s))))
      = (if has_error (vision_of env apiKey file) then [] else [200])"
    by (simp only: process_item_effects delays_of_item_effects)
  show ?thesis
    using a b last_trace_process_item[of env apiKey i "file" s] by simp
qed

theorem delay_follows_completed_items_only_witness:
  "has_error (vision_of demo_env ''k'' (demo_file ''offline.png''))
   \<and> delays_of (drop (length (trace demo_batch))
        (trace (snd (process_item demo_env ''k'' 1 (demo_file ''offline.png'') demo_batch)))) = []
   \<and> last (trace (snd (process_item demo_env ''k'' 1 (demo_file ''offline.png'') demo_batch)))
       = UpdateItemStatus 1 ''error''
   \<and> \<not> has_error (vision_of demo_env ''k'' (demo_file ''a.png''))
   \<and> delays_of (drop (length (trace demo_batch))
        (trace (snd (process_item demo_env ''k'' 0 (demo_file ''a.png'') demo_batch)))) = [200]
   \<and> last (trace (snd (process_item demo_env ''k'' 0 (demo_file ''a.png'') demo_batch)))
       = Delay 200"
  using delay_follows_completed_items_only[of demo_env "''k''" demo_batch "demo_file ''offline.png''" 1]
    delay_follows_completed_items_only[of demo_env "''k''" demo_batch "demo_file ''a.png''" 0]
    demo_has_error
  by blast

end
